theory Spec2Isabelle
  imports Complex_Main
begin

section \<open>Tokens\<close>

text \<open>
  The enum \<open>TokenType\<close> of \<open>index.ts\<close>. At run time each member is the
  non-empty string of its own name.
\<close>

datatype TokenType =
    LEFT_PAREN | RIGHT_PAREN | LEFT_BRACE | RIGHT_BRACE
  | COMMA | DOT | MINUS | PLUS | SEMICOLON | SLASH | STAR
  | BANG | BANG_EQUAL | EQUAL | EQUAL_EQUAL
  | GREATER | GREATER_EQUAL | LESS | LESS_EQUAL
  | IDENTIFIER | STRING | NUMBER
  | AND | CLASS | ELSE | FALSE | FUN | FOR | IF | NIL | OR
  | PRINT | RETURN | SUPER | THIS | TRUE | VAR | WHILE
  | EOF

text \<open>
  What the field \<open>type\<close> of a token holds when the program runs. The scanner
  stores there either a member of the enum or, in \<open>Scanner.identifier\<close>, whatever
  the property read \<open>Scanner.KEYWORDS[text]\<close> returned. \<open>KEYWORDS\<close> is an
  object literal, so that read also finds the properties every object inherits
  from \<open>Object.prototype\<close>; \<open>Inherited name\<close> stands for the inherited
  member of that name (a function, or the prototype object itself).
\<close>

datatype type_value = Member TokenType | Inherited string

section \<open>Run-time values\<close>

text \<open>
  The values the interpreter computes with: the literals the parser builds
  (\<open>number\<close>, \<open>string\<close>, \<open>boolean\<close>, \<open>null\<close>) and \<open>undefined\<close>, which a
  method returns when control leaves its \<open>switch\<close> without a \<open>return\<close>.
  The type \<open>'n\<close> is the host's Number type (IEEE-754 binary64).
\<close>

datatype 'n jsvalue =
    JNumber 'n | JString string | JBoolean bool | JNull | JUndefined

datatype 'n Token =
  Token (type: type_value) (lexeme: string) (literal: "'n jsvalue") (line: nat)

datatype 'n Expr =
    Binary "'n Expr" "'n Token" "'n Expr"
  | Grouping "'n Expr"
  | Literal "'n jsvalue"
  | Unary "'n Token" "'n Expr"

section \<open>The host language\<close>

text \<open>
  The interpreter applies the operators of its host language (\<open>+\<close>, \<open>-\<close>,
  \<open>/\<close>, \<open><\<close>, \<open>===\<close>, \<open>Number(...)\<close>) to the values above. Their
  arithmetic on Numbers and the two conversions between Numbers and strings are
  the host's; they are parameters of the model, so that every theorem below
  holds for whatever the host computes.
\<close>

record 'n host =
  num_add :: "'n \<Rightarrow> 'n \<Rightarrow> 'n"
  num_sub :: "'n \<Rightarrow> 'n \<Rightarrow> 'n"
  num_mul :: "'n \<Rightarrow> 'n \<Rightarrow> 'n"
  num_div :: "'n \<Rightarrow> 'n \<Rightarrow> 'n"
  num_neg :: "'n \<Rightarrow> 'n"
  num_lt :: "'n \<Rightarrow> 'n \<Rightarrow> bool option"
  num_eq :: "'n \<Rightarrow> 'n \<Rightarrow> bool"
  num_zero :: "'n"
  num_one :: "'n"
  num_nan :: "'n"
  string_to_number :: "string \<Rightarrow> 'n"
  number_to_string :: "'n \<Rightarrow> string"

text \<open>
  \<open>num_lt\<close> is the host's \<open>Number::lessThan\<close>: \<open>None\<close> is its answer
  \<open>undefined\<close>, given when an operand is NaN. \<open>num_mul\<close> is the host's product;
  the interpreter never calls it.
\<close>

text \<open>\<open>ToNumber\<close>, which \<open>Number(v)\<close> and the arithmetic operators apply.\<close>

fun ToNumber :: "'n host \<Rightarrow> 'n jsvalue \<Rightarrow> 'n" where
  "ToNumber h (JNumber x) = x"
| "ToNumber h (JString s) = string_to_number h s"
| "ToNumber h (JBoolean b) = (if b then num_one h else num_zero h)"
| "ToNumber h JNull = num_zero h"
| "ToNumber h JUndefined = num_nan h"

text \<open>\<open>ToString\<close>, which \<open>+\<close> applies when an operand is a string.\<close>

fun ToString :: "'n host \<Rightarrow> 'n jsvalue \<Rightarrow> string" where
  "ToString h (JNumber x) = number_to_string h x"
| "ToString h (JString s) = s"
| "ToString h (JBoolean b) = (if b then ''true'' else ''false'')"
| "ToString h JNull = ''null''"
| "ToString h JUndefined = ''undefined''"

fun is_string :: "'n jsvalue \<Rightarrow> bool" where
  "is_string (JString s) = True"
| "is_string v = False"

text \<open>The operator \<open>+\<close>: concatenation when an operand is a string.\<close>

definition js_add :: "'n host \<Rightarrow> 'n jsvalue \<Rightarrow> 'n jsvalue \<Rightarrow> 'n jsvalue" where
  "js_add h l r =
     (if is_string l \<or> is_string r then JString (ToString h l @ ToString h r)
      else JNumber (num_add h (ToNumber h l) (ToNumber h r)))"

definition js_sub :: "'n host \<Rightarrow> 'n jsvalue \<Rightarrow> 'n jsvalue \<Rightarrow> 'n jsvalue" where
  "js_sub h l r = JNumber (num_sub h (ToNumber h l) (ToNumber h r))"

definition js_div :: "'n host \<Rightarrow> 'n jsvalue \<Rightarrow> 'n jsvalue \<Rightarrow> 'n jsvalue" where
  "js_div h l r = JNumber (num_div h (ToNumber h l) (ToNumber h r))"

definition js_neg :: "'n host \<Rightarrow> 'n jsvalue \<Rightarrow> 'n jsvalue" where
  "js_neg h v = JNumber (num_neg h (ToNumber h v))"

text \<open>Strings compare by code units, the shorter of two prefixes first.\<close>

fun string_lt :: "string \<Rightarrow> string \<Rightarrow> bool" where
  "string_lt [] [] = False"
| "string_lt [] (y # ys) = True"
| "string_lt (x # xs) [] = False"
| "string_lt (x # xs) (y # ys) =
     (if (of_char x :: nat) < of_char y then True
      else if (of_char y :: nat) < of_char x then False
      else string_lt xs ys)"

text \<open>
  The host's \<open>IsLessThan\<close>: two strings compare as strings, any other pair as
  Numbers; \<open>None\<close> is the answer \<open>undefined\<close>.
\<close>

fun IsLessThan :: "'n host \<Rightarrow> 'n jsvalue \<Rightarrow> 'n jsvalue \<Rightarrow> bool option" where
  "IsLessThan h (JString s) (JString t) = Some (string_lt s t)"
| "IsLessThan h x y = num_lt h (ToNumber h x) (ToNumber h y)"

text \<open>\<open>l < r\<close>, \<open>l > r\<close>, \<open>l <= r\<close> and \<open>l >= r\<close>.\<close>

definition js_lt :: "'n host \<Rightarrow> 'n jsvalue \<Rightarrow> 'n jsvalue \<Rightarrow> 'n jsvalue" where
  "js_lt h l r = JBoolean (IsLessThan h l r = Some True)"

definition js_gt :: "'n host \<Rightarrow> 'n jsvalue \<Rightarrow> 'n jsvalue \<Rightarrow> 'n jsvalue" where
  "js_gt h l r = JBoolean (IsLessThan h r l = Some True)"

definition js_le :: "'n host \<Rightarrow> 'n jsvalue \<Rightarrow> 'n jsvalue \<Rightarrow> 'n jsvalue" where
  "js_le h l r = JBoolean (IsLessThan h r l = Some False)"

definition js_ge :: "'n host \<Rightarrow> 'n jsvalue \<Rightarrow> 'n jsvalue \<Rightarrow> 'n jsvalue" where
  "js_ge h l r = JBoolean (IsLessThan h l r = Some False)"

text \<open>Strict equality \<open>===\<close>.\<close>

fun strict_equals :: "'n host \<Rightarrow> 'n jsvalue \<Rightarrow> 'n jsvalue \<Rightarrow> bool" where
  "strict_equals h (JNumber x) (JNumber y) = num_eq h x y"
| "strict_equals h (JString s) (JString t) = (s = t)"
| "strict_equals h (JBoolean a) (JBoolean b) = (a = b)"
| "strict_equals h JNull JNull = True"
| "strict_equals h JUndefined JUndefined = True"
| "strict_equals h x y = False"

section \<open>Interpreter\<close>

text \<open>
  \<open>isTruthy\<close>: \<open>object == null\<close> holds of \<open>null\<close> and of \<open>undefined\<close>.
\<close>

fun isTruthy :: "'n jsvalue \<Rightarrow> bool" where
  "isTruthy JNull = False"
| "isTruthy JUndefined = False"
| "isTruthy (JBoolean b) = b"
| "isTruthy v = True"

text \<open>
  The \<open>switch\<close> of \<open>visitUnaryExpr\<close> on the operator's type, applied to the
  operand's value. \<open>None\<close>: no \<open>case\<close> matched, and control reaches the end
  of the method.
\<close>

definition visitUnaryExpr_switch ::
  "'n host \<Rightarrow> 'n Token \<Rightarrow> 'n jsvalue \<Rightarrow> 'n jsvalue option" where
  "visitUnaryExpr_switch h operator right =
     (if type operator = Member MINUS then Some (js_neg h right)
      else if type operator = Member BANG then Some (JBoolean (\<not> isTruthy right))
      else None)"

text \<open>The \<open>switch\<close> of \<open>visitBinaryExpr\<close>; the case \<open>STAR\<close> returns \<open>left + right\<close>.\<close>

definition visitBinaryExpr_switch ::
  "'n host \<Rightarrow> 'n Token \<Rightarrow> 'n jsvalue \<Rightarrow> 'n jsvalue \<Rightarrow> 'n jsvalue option" where
  "visitBinaryExpr_switch h operator left right =
     (if type operator = Member GREATER then Some (js_gt h left right)
      else if type operator = Member GREATER_EQUAL then Some (js_ge h left right)
      else if type operator = Member LESS then Some (js_lt h left right)
      else if type operator = Member LESS_EQUAL then Some (js_le h left right)
      else if type operator = Member BANG_EQUAL then Some (JBoolean (\<not> strict_equals h left right))
      else if type operator = Member EQUAL_EQUAL then Some (JBoolean (strict_equals h left right))
      else if type operator = Member MINUS then Some (js_sub h left right)
      else if type operator = Member SLASH then Some (js_div h left right)
      else if type operator = Member STAR then Some (js_add h left right)
      else if type operator = Member PLUS then Some (js_add h left right)
      else None)"

text \<open>A method that ends without a \<open>return\<close> returns \<open>undefined\<close>.\<close>

definition returned :: "'n jsvalue option \<Rightarrow> 'n jsvalue" where
  "returned r = (case r of Some v \<Rightarrow> v | None \<Rightarrow> JUndefined)"

text \<open>
  \<open>evaluate\<close> and the visitor methods it dispatches to through \<open>accept\<close>. The
  recursion follows the tree except in \<open>visitGroupingExpr\<close>, which passes its own
  node back to \<open>evaluate\<close>, so the functions carry a bound on the depth of nested
  calls of \<open>evaluate\<close>: \<open>None\<close> says that the bound was reached before a value was
  returned.
\<close>

fun evaluate :: "'n host \<Rightarrow> nat \<Rightarrow> 'n Expr \<Rightarrow> 'n jsvalue option"
  and visitGroupingExpr :: "'n host \<Rightarrow> nat \<Rightarrow> 'n Expr \<Rightarrow> 'n jsvalue option"
  and visitUnaryExpr :: "'n host \<Rightarrow> nat \<Rightarrow> 'n Token \<Rightarrow> 'n Expr \<Rightarrow> 'n jsvalue option"
  and visitBinaryExpr ::
    "'n host \<Rightarrow> nat \<Rightarrow> 'n Expr \<Rightarrow> 'n Token \<Rightarrow> 'n Expr \<Rightarrow> 'n jsvalue option"
where
  "evaluate h 0 expr = None"
| "evaluate h (Suc n) (Literal v) = Some v"
| "evaluate h (Suc n) (Grouping inner) = visitGroupingExpr h n (Grouping inner)"
| "evaluate h (Suc n) (Unary operator right) = visitUnaryExpr h n operator right"
| "evaluate h (Suc n) (Binary left operator right) = visitBinaryExpr h n left operator right"
| "visitGroupingExpr h n expr = evaluate h n expr"
| "visitUnaryExpr h n operator e =
     (case evaluate h n e of
        None \<Rightarrow> None
      | Some right \<Rightarrow> Some (returned (visitUnaryExpr_switch h operator right)))"
| "visitBinaryExpr h n l operator r =
     (case evaluate h n l of
        None \<Rightarrow> None
      | Some left \<Rightarrow>
          (case evaluate h n r of
             None \<Rightarrow> None
           | Some right \<Rightarrow> Some (returned (visitBinaryExpr_switch h operator left right))))"

section \<open>Diagnostics\<close>

text \<open>
  The global \<open>hadError\<close> and the two output streams. \<open>console.error\<close> appends
  a line to \<open>stderr\<close>: \<open>Report line where message\<close> is the line
  \<open>[line N] Error<where>: <message>\<close>, \<open>Uncaught message\<close> the message of an
  exception that \<open>main\<close> caught. \<open>console.log(JSON.stringify(value))\<close> appends the
  value to \<open>stdout\<close>.
\<close>

datatype stderr_line = Report nat string string | Uncaught string

record 'n globals =
  hadError :: bool
  stderr :: "stderr_line list"
  stdout :: "'n jsvalue list"

definition report :: "nat \<Rightarrow> string \<Rightarrow> string \<Rightarrow> 'n globals \<Rightarrow> 'n globals" where
  "report lnum wh message g = g\<lparr>stderr := stderr g @ [Report lnum wh message], hadError := True\<rparr>"

definition error :: "nat \<Rightarrow> string \<Rightarrow> 'n globals \<Rightarrow> 'n globals" where
  "error lnum message g = report lnum [] message g"

section \<open>Scanner\<close>

text \<open>
  The own properties of \<open>Scanner.KEYWORDS\<close>, and the names of the properties it
  inherits from \<open>Object.prototype\<close>.
\<close>

definition KEYWORDS :: "(string \<times> TokenType) list" where
  "KEYWORDS =
     [(''and'', AND), (''class'', CLASS), (''else'', ELSE), (''false'', FALSE),
      (''for'', FOR), (''fun'', FUN), (''if'', IF), (''nil'', NIL), (''or'', OR),
      (''print'', PRINT), (''return'', RETURN), (''super'', SUPER), (''this'', THIS),
      (''true'', TRUE), (''var'', VAR), (''while'', WHILE)]"

definition Object_prototype :: "string list" where
  "Object_prototype =
     [''constructor'', ''hasOwnProperty'', ''isPrototypeOf'', ''propertyIsEnumerable'',
      ''toLocaleString'', ''toString'', ''valueOf'', ''__proto__'',
      ''__defineGetter__'', ''__defineSetter__'', ''__lookupGetter__'', ''__lookupSetter__'']"

text \<open>
  The property read \<open>Scanner.KEYWORDS[text]\<close>: an own property first, then the
  prototype; \<open>None\<close> is \<open>undefined\<close>. Every value it finds is truthy.
\<close>

definition KEYWORDS_get :: "string \<Rightarrow> type_value option" where
  "KEYWORDS_get text =
     (case map_of KEYWORDS text of
        Some t \<Rightarrow> Some (Member t)
      | None \<Rightarrow> if text \<in> set Object_prototype then Some (Inherited text) else None)"

text \<open>
  The fields of a \<open>Scanner\<close>. The source is a list of code units, indexed from
  \<open>0\<close>.
\<close>

record 'n Scanner =
  source :: string
  tokens :: "'n Token list"
  start :: nat
  current :: nat
  line :: nat

text \<open>\<open>new Scanner(source)\<close>.\<close>

definition new_Scanner :: "string \<Rightarrow> 'n Scanner" where
  "new_Scanner src = \<lparr>source = src, tokens = [], start = 0, current = 0, line = 1\<rparr>"

text \<open>
  \<open>String.prototype.substring\<close>: the two indices are clamped to the string and
  swapped when the first is the larger.
\<close>

definition substring :: "string \<Rightarrow> nat \<Rightarrow> nat \<Rightarrow> string" where
  "substring s a b = take (max a b - min a b) (drop (min a b) s)"

definition Scanner_isAtEnd :: "'n Scanner \<Rightarrow> bool" where
  "Scanner_isAtEnd s = (length (source s) \<le> Scanner.current s)"

definition Scanner_peek :: "'n Scanner \<Rightarrow> char" where
  "Scanner_peek s = (if Scanner_isAtEnd s then CHR 0x00 else source s ! Scanner.current s)"

definition peekNext :: "'n Scanner \<Rightarrow> char" where
  "peekNext s =
     (if length (source s) \<le> Scanner.current s + 1 then CHR 0x00
      else source s ! (Scanner.current s + 1))"

text \<open>\<open>advance\<close> returns \<open>source[current++]\<close>, which is \<open>undefined\<close> (\<open>None\<close>) past the end.\<close>

definition Scanner_advance :: "'n Scanner \<Rightarrow> char option \<times> 'n Scanner" where
  "Scanner_advance s =
     (if Scanner.current s < length (source s) then Some (source s ! Scanner.current s) else None,
      s\<lparr>Scanner.current := Scanner.current s + 1\<rparr>)"

definition Scanner_match :: "char \<Rightarrow> 'n Scanner \<Rightarrow> bool \<times> 'n Scanner" where
  "Scanner_match expected s =
     (if Scanner_isAtEnd s then (False, s)
      else if source s ! Scanner.current s \<noteq> expected then (False, s)
      else (True, s\<lparr>Scanner.current := Scanner.current s + 1\<rparr>))"

definition addToken :: "type_value \<Rightarrow> 'n jsvalue \<Rightarrow> 'n Scanner \<Rightarrow> 'n Scanner" where
  "addToken ty lit s =
     s\<lparr>Scanner.tokens := Scanner.tokens s @
        [Token ty (substring (source s) (start s) (Scanner.current s)) lit (Scanner.line s)]\<rparr>"

definition isDigit :: "char \<Rightarrow> bool" where
  "isDigit c = ((of_char (CHR ''0'') :: nat) \<le> of_char c \<and> (of_char c :: nat) \<le> of_char (CHR ''9''))"

definition isAlpha :: "char \<Rightarrow> bool" where
  "isAlpha c =
     (((of_char (CHR ''a'') :: nat) \<le> of_char c \<and> (of_char c :: nat) \<le> of_char (CHR ''z''))
      \<or> ((of_char (CHR ''A'') :: nat) \<le> of_char c \<and> (of_char c :: nat) \<le> of_char (CHR ''Z''))
      \<or> c = CHR ''_'')"

definition isAlphaNumeric :: "char \<Rightarrow> bool" where
  "isAlphaNumeric c = (isAlpha c \<or> isDigit c)"

text \<open>The loop of a line comment: \<open>while (peek() !== '\n' && !isAtEnd()) advance()\<close>.\<close>

function comment_loop :: "'n Scanner \<Rightarrow> 'n Scanner" where
  "comment_loop s =
     (if Scanner_peek s \<noteq> CHR 0x0A \<and> \<not> Scanner_isAtEnd s
      then comment_loop (snd (Scanner_advance s)) else s)"
  by pat_completeness auto
termination
  by (relation "measure (\<lambda>s. length (source s) - Scanner.current s)")
    (auto simp: Scanner_isAtEnd_def Scanner_advance_def)

text \<open>The loop of \<open>string()\<close>, which counts the newlines inside the literal.\<close>

function string_loop :: "'n Scanner \<Rightarrow> 'n Scanner" where
  "string_loop s =
     (if Scanner_peek s \<noteq> CHR 0x22 \<and> \<not> Scanner_isAtEnd s
      then string_loop (snd (Scanner_advance
             (if Scanner_peek s = CHR 0x0A then s\<lparr>Scanner.line := Scanner.line s + 1\<rparr> else s)))
      else s)"
  by pat_completeness auto
termination
  by (relation "measure (\<lambda>s. length (source s) - Scanner.current s)")
    (auto simp: Scanner_isAtEnd_def Scanner_advance_def)

definition Scanner_string :: "'n Scanner \<Rightarrow> 'n globals \<Rightarrow> 'n Scanner \<times> 'n globals" where
  "Scanner_string s0 g =
     (let s = string_loop s0 in
      if Scanner_isAtEnd s then (s, error (Scanner.line s) ''Unterminated string.'' g)
      else
        (let s1 = snd (Scanner_advance s);
             v = substring (source s1) (start s1 + 1) (Scanner.current s1 - 1)
         in (addToken (Member STRING) (JString v) s1, g)))"

text \<open>\<open>while (isDigit(peek())) advance()\<close>, twice in \<open>number()\<close>.\<close>

function digits_loop :: "'n Scanner \<Rightarrow> 'n Scanner" where
  "digits_loop s =
     (if isDigit (Scanner_peek s) then digits_loop (snd (Scanner_advance s)) else s)"
  by pat_completeness auto
termination
  by (relation "measure (\<lambda>s. length (source s) - Scanner.current s)")
    (auto simp: Scanner_isAtEnd_def Scanner_advance_def Scanner_peek_def isDigit_def
      split: if_splits)

definition Scanner_number :: "'n host \<Rightarrow> 'n Scanner \<Rightarrow> 'n Scanner" where
  "Scanner_number h s0 =
     (let s1 = digits_loop s0;
          s2 = (if Scanner_peek s1 = CHR ''.'' \<and> isDigit (peekNext s1)
                then digits_loop (snd (Scanner_advance s1)) else s1)
      in addToken (Member NUMBER)
           (JNumber (string_to_number h (substring (source s2) (start s2) (Scanner.current s2))))
           s2)"

text \<open>\<open>while (isAlphaNumeric(peek())) advance()\<close>.\<close>

function identifier_loop :: "'n Scanner \<Rightarrow> 'n Scanner" where
  "identifier_loop s =
     (if isAlphaNumeric (Scanner_peek s) then identifier_loop (snd (Scanner_advance s)) else s)"
  by pat_completeness auto
termination
  by (relation "measure (\<lambda>s. length (source s) - Scanner.current s)")
    (auto simp: Scanner_isAtEnd_def Scanner_advance_def Scanner_peek_def isAlphaNumeric_def
      isAlpha_def isDigit_def split: if_splits)

definition Scanner_identifier :: "'n Scanner \<Rightarrow> 'n Scanner" where
  "Scanner_identifier s0 =
     (let s = identifier_loop s0;
          text = substring (source s) (start s) (Scanner.current s);
          ty = (case KEYWORDS_get text of Some t \<Rightarrow> t | None \<Rightarrow> Member IDENTIFIER)
      in addToken ty JNull s)"

text \<open>
  \<open>scanToken\<close>. In \<open>addToken(match('=') ? A : B)\<close> the call of \<open>match\<close> comes
  first. A character that is \<open>undefined\<close> is no digit and no letter.
\<close>

definition scanToken ::
  "'n host \<Rightarrow> 'n Scanner \<Rightarrow> 'n globals \<Rightarrow> 'n Scanner \<times> 'n globals" where
  "scanToken h s0 g =
     (let (c, s) = Scanner_advance s0 in
      if c = Some (CHR ''('') then (addToken (Member LEFT_PAREN) JNull s, g)
      else if c = Some (CHR '')'') then (addToken (Member RIGHT_PAREN) JNull s, g)
      else if c = Some (CHR ''{'') then (addToken (Member LEFT_BRACE) JNull s, g)
      else if c = Some (CHR ''}'') then (addToken (Member RIGHT_BRACE) JNull s, g)
      else if c = Some (CHR '','') then (addToken (Member COMMA) JNull s, g)
      else if c = Some (CHR ''.'') then (addToken (Member DOT) JNull s, g)
      else if c = Some (CHR ''-'') then (addToken (Member MINUS) JNull s, g)
      else if c = Some (CHR ''+'') then (addToken (Member PLUS) JNull s, g)
      else if c = Some (CHR '';'') then (addToken (Member SEMICOLON) JNull s, g)
      else if c = Some (CHR ''*'') then (addToken (Member STAR) JNull s, g)
      else if c = Some (CHR ''!'') then
        (let (m, s1) = Scanner_match (CHR ''='') s
         in (addToken (Member (if m then BANG_EQUAL else BANG)) JNull s1, g))
      else if c = Some (CHR ''='') then
        (let (m, s1) = Scanner_match (CHR ''='') s
         in (addToken (Member (if m then EQUAL_EQUAL else EQUAL)) JNull s1, g))
      else if c = Some (CHR ''<'') then
        (let (m, s1) = Scanner_match (CHR ''='') s
         in (addToken (Member (if m then LESS_EQUAL else LESS)) JNull s1, g))
      else if c = Some (CHR ''>'') then
        (let (m, s1) = Scanner_match (CHR ''='') s
         in (addToken (Member (if m then GREATER_EQUAL else GREATER)) JNull s1, g))
      else if c = Some (CHR ''/'') then
        (let (m, s1) = Scanner_match (CHR ''/'') s
         in if m then (comment_loop s1, g) else (addToken (Member SLASH) JNull s1, g))
      else if c = Some (CHR '' '') \<or> c = Some (CHR 0x0D) \<or> c = Some (CHR 0x09) then (s, g)
      else if c = Some (CHR 0x0A) then (s\<lparr>Scanner.line := Scanner.line s + 1\<rparr>, g)
      else if c = Some (CHR 0x22) then Scanner_string s g
      else
        (case c of
           Some d \<Rightarrow>
             if isDigit d then (Scanner_number h s, g)
             else if isAlpha d then (Scanner_identifier s, g)
             else (s, error (Scanner.line s) ''Unexpected character.'' g)
         | None \<Rightarrow> (s, error (Scanner.line s) ''Unexpected character.'' g)))"

text \<open>The loop of \<open>scanTokens\<close>, and \<open>scanTokens\<close>, which appends the token \<open>EOF\<close>.\<close>

function scanTokens_loop ::
  "'n host \<Rightarrow> 'n Scanner \<Rightarrow> 'n globals \<Rightarrow> 'n Scanner \<times> 'n globals" where
  "scanTokens_loop h s g =
     (if \<not> Scanner_isAtEnd s
      then (case scanToken h (s\<lparr>start := Scanner.current s\<rparr>) g of
              (s', g') \<Rightarrow> scanTokens_loop h s' g')
      else (s, g))"
  by pat_completeness auto

definition scanTokens ::
  "'n host \<Rightarrow> 'n Scanner \<Rightarrow> 'n globals \<Rightarrow> 'n Token list \<times> 'n globals" where
  "scanTokens h s g =
     (case scanTokens_loop h s g of
        (s', g') \<Rightarrow> (Scanner.tokens s' @ [Token (Member EOF) [] JNull (Scanner.line s')], g'))"

section \<open>Parser\<close>

text \<open>
  What a method of the parser or of the driver can throw: the \<open>Error\<close> that
  \<open>Parser.error\<close> returns, and the host's \<open>TypeError\<close> for reading a property of
  \<open>undefined\<close> or \<open>null\<close>. \<open>Parser.error\<close> reports before it returns, and every call
  of it is thrown at once; \<open>ParseError token message\<close> carries the arguments of that
  call, and \<open>parse\<close>, the only place that catches it, applies the report to the
  globals. Nothing else in the parser touches the globals.
\<close>

datatype 'n thrown = ParseError "'n Token" string | TypeError string

text \<open>The message of the exception, which \<open>main\<close> prints.\<close>

fun message_of :: "'n thrown \<Rightarrow> string" where
  "message_of (ParseError token message) = ''Parse error''"
| "message_of (TypeError message) = message"

definition reading_undefined :: "string \<Rightarrow> 'n thrown" where
  "reading_undefined property =
     TypeError (''Cannot read properties of undefined (reading '' @ [CHR 0x27] @ property
       @ [CHR 0x27] @ '')'')"

definition undefined_type :: "'n thrown" where
  "undefined_type = reading_undefined ''type''"

record 'n Parser =
  tokens :: "'n Token list"
  current :: nat

text \<open>\<open>new Parser(tokens)\<close>.\<close>

definition new_Parser :: "'n Token list \<Rightarrow> 'n Parser" where
  "new_Parser toks = \<lparr>tokens = toks, current = 0\<rparr>"

text \<open>
  \<open>Parser.error\<close>: the report it makes. The source closes the lexeme with two
  quotes.
\<close>

definition Parser_error :: "'n Token \<Rightarrow> string \<Rightarrow> 'n globals \<Rightarrow> 'n globals" where
  "Parser_error token message g =
     (if type token = Member EOF then report (Token.line token) '' at end'' message g
      else report (Token.line token)
             ('' at '' @ [CHR 0x27] @ lexeme token @ [CHR 0x27, CHR 0x27]) message g)"

text \<open>\<open>tokens[current]\<close> and \<open>tokens[current - 1]\<close>; \<open>None\<close> is \<open>undefined\<close>.\<close>

definition Parser_peek :: "'n Parser \<Rightarrow> 'n Token option" where
  "Parser_peek p =
     (if Parser.current p < length (Parser.tokens p)
      then Some (Parser.tokens p ! Parser.current p) else None)"

definition previous :: "'n Parser \<Rightarrow> 'n Token option" where
  "previous p =
     (if 0 < Parser.current p \<and> Parser.current p - 1 < length (Parser.tokens p)
      then Some (Parser.tokens p ! (Parser.current p - 1)) else None)"

definition Parser_isAtEnd :: "'n Parser \<Rightarrow> 'n thrown + bool" where
  "Parser_isAtEnd p =
     (case Parser_peek p of
        None \<Rightarrow> Inl undefined_type
      | Some t \<Rightarrow> Inr (type t = Member EOF))"

definition check :: "'n Parser \<Rightarrow> TokenType \<Rightarrow> 'n thrown + bool" where
  "check p ty =
     (case Parser_isAtEnd p of
        Inl e \<Rightarrow> Inl e
      | Inr True \<Rightarrow> Inr False
      | Inr False \<Rightarrow>
          (case Parser_peek p of
             None \<Rightarrow> Inl undefined_type
           | Some t \<Rightarrow> Inr (type t = Member ty)))"

text \<open>\<open>advance\<close> also returns \<open>previous()\<close>, which no caller uses.\<close>

definition Parser_advance :: "'n Parser \<Rightarrow> 'n thrown + 'n Parser" where
  "Parser_advance p =
     (case Parser_isAtEnd p of
        Inl e \<Rightarrow> Inl e
      | Inr at_end \<Rightarrow> Inr (if at_end then p else p\<lparr>Parser.current := Parser.current p + 1\<rparr>))"

fun Parser_match :: "'n Parser \<Rightarrow> TokenType list \<Rightarrow> 'n thrown + bool \<times> 'n Parser" where
  "Parser_match p [] = Inr (False, p)"
| "Parser_match p (ty # types) =
     (case check p ty of
        Inl e \<Rightarrow> Inl e
      | Inr True \<Rightarrow>
          (case Parser_advance p of Inl e \<Rightarrow> Inl e | Inr p' \<Rightarrow> Inr (True, p'))
      | Inr False \<Rightarrow> Parser_match p types)"

definition consume :: "'n Parser \<Rightarrow> TokenType \<Rightarrow> string \<Rightarrow> 'n thrown + 'n Parser" where
  "consume p ty message =
     (case check p ty of
        Inl e \<Rightarrow> Inl e
      | Inr True \<Rightarrow> Parser_advance p
      | Inr False \<Rightarrow>
          (case Parser_peek p of
             None \<Rightarrow> Inl undefined_type
           | Some t \<Rightarrow> Inl (ParseError t message)))"

text \<open>
  The grammar methods. Each returns the expression and the parser after it, or what
  it threw. They call each other through \<open>primary\<close> and \<open>unary\<close>, so they carry a
  bound on the depth of calls; \<open>None\<close> says that the bound was reached.
  \<open>and_then r f\<close> continues with \<open>f\<close> when \<open>r\<close> returned and passes on what
  \<open>r\<close> threw; \<open>returning\<close> is for the methods that need no bound; \<open>defined t\<close>
  throws the host's \<open>TypeError\<close> when \<open>t\<close> is \<open>undefined\<close>. Each \<open>while\<close> loop is
  a function of its own, \<open>_loop\<close>, with the running expression as an argument.
  Where \<open>previous()\<close> is \<open>undefined\<close> the model throws; the source would build a
  node with that operator, but \<open>match\<close> has just advanced, so the case does not
  arise (\<open>match_previous\<close> below).
\<close>

definition and_then ::
  "('e + 'a) option \<Rightarrow> ('a \<Rightarrow> ('e + 'b) option) \<Rightarrow> ('e + 'b) option" where
  "and_then r f = (case r of None \<Rightarrow> None | Some (Inl e) \<Rightarrow> Some (Inl e) | Some (Inr x) \<Rightarrow> f x)"

definition returning :: "'e + 'a \<Rightarrow> ('e + 'a) option" where
  "returning r = Some r"

definition defined :: "'n Token option \<Rightarrow> string \<Rightarrow> ('n thrown + 'n Token) option" where
  "defined t property =
     (case t of
        None \<Rightarrow> Some (Inl (reading_undefined property))
      | Some x \<Rightarrow> Some (Inr x))"

function (sequential) expression :: "nat \<Rightarrow> 'n Parser \<Rightarrow> ('n thrown + 'n Expr \<times> 'n Parser) option"
  and equality :: "nat \<Rightarrow> 'n Parser \<Rightarrow> ('n thrown + 'n Expr \<times> 'n Parser) option"
  and equality_loop ::
    "nat \<Rightarrow> 'n Expr \<Rightarrow> 'n Parser \<Rightarrow> ('n thrown + 'n Expr \<times> 'n Parser) option"
  and comparison :: "nat \<Rightarrow> 'n Parser \<Rightarrow> ('n thrown + 'n Expr \<times> 'n Parser) option"
  and comparison_loop ::
    "nat \<Rightarrow> 'n Expr \<Rightarrow> 'n Parser \<Rightarrow> ('n thrown + 'n Expr \<times> 'n Parser) option"
  and Parser_term :: "nat \<Rightarrow> 'n Parser \<Rightarrow> ('n thrown + 'n Expr \<times> 'n Parser) option"
  and term_loop ::
    "nat \<Rightarrow> 'n Expr \<Rightarrow> 'n Parser \<Rightarrow> ('n thrown + 'n Expr \<times> 'n Parser) option"
  and factor :: "nat \<Rightarrow> 'n Parser \<Rightarrow> ('n thrown + 'n Expr \<times> 'n Parser) option"
  and factor_loop ::
    "nat \<Rightarrow> 'n Expr \<Rightarrow> 'n Parser \<Rightarrow> ('n thrown + 'n Expr \<times> 'n Parser) option"
  and unary :: "nat \<Rightarrow> 'n Parser \<Rightarrow> ('n thrown + 'n Expr \<times> 'n Parser) option"
  and primary :: "nat \<Rightarrow> 'n Parser \<Rightarrow> ('n thrown + 'n Expr \<times> 'n Parser) option"
where
  "expression 0 p = None"
| "expression (Suc n) p = equality n p"
| "equality 0 p = None"
| "equality (Suc n) p =
     and_then (comparison n p) (\<lambda>(expr, p1). equality_loop n expr p1)"
| "equality_loop 0 expr p = None"
| "equality_loop (Suc n) expr p =
     and_then (returning (Parser_match p [BANG_EQUAL, EQUAL_EQUAL])) (\<lambda>(matched, p1).
       if matched then
         and_then (defined (previous p1) ''type'') (\<lambda>operator.
         and_then (comparison n p1) (\<lambda>(right, p2).
           equality_loop n (Binary expr operator right) p2))
       else Some (Inr (expr, p1)))"
| "comparison 0 p = None"
| "comparison (Suc n) p =
     and_then (Parser_term n p) (\<lambda>(expr, p1). comparison_loop n expr p1)"
| "comparison_loop 0 expr p = None"
| "comparison_loop (Suc n) expr p =
     and_then (returning (Parser_match p [GREATER, GREATER_EQUAL, LESS, LESS_EQUAL]))
       (\<lambda>(matched, p1).
       if matched then
         and_then (defined (previous p1) ''type'') (\<lambda>operator.
         and_then (Parser_term n p1) (\<lambda>(right, p2).
           comparison_loop n (Binary expr operator right) p2))
       else Some (Inr (expr, p1)))"
| "Parser_term 0 p = None"
| "Parser_term (Suc n) p =
     and_then (factor n p) (\<lambda>(expr, p1). term_loop n expr p1)"
| "term_loop 0 expr p = None"
| "term_loop (Suc n) expr p =
     and_then (returning (Parser_match p [MINUS, PLUS])) (\<lambda>(matched, p1).
       if matched then
         and_then (defined (previous p1) ''type'') (\<lambda>operator.
         and_then (factor n p1) (\<lambda>(right, p2).
           term_loop n (Binary expr operator right) p2))
       else Some (Inr (expr, p1)))"
| "factor 0 p = None"
| "factor (Suc n) p =
     and_then (unary n p) (\<lambda>(expr, p1). factor_loop n expr p1)"
| "factor_loop 0 expr p = None"
| "factor_loop (Suc n) expr p =
     and_then (returning (Parser_match p [SLASH, STAR])) (\<lambda>(matched, p1).
       if matched then
         and_then (defined (previous p1) ''type'') (\<lambda>operator.
         and_then (unary n p1) (\<lambda>(right, p2).
           factor_loop n (Binary expr operator right) p2))
       else Some (Inr (expr, p1)))"
| "unary 0 p = None"
| "unary (Suc n) p =
     and_then (returning (Parser_match p [BANG, MINUS])) (\<lambda>(matched, p1).
       if matched then
         and_then (defined (previous p1) ''type'') (\<lambda>operator.
         and_then (unary n p1) (\<lambda>(right, p2).
           Some (Inr (Unary operator right, p2))))
       else primary n p1)"
| "primary 0 p = None"
| "primary (Suc n) p =
     and_then (returning (Parser_match p [FALSE])) (\<lambda>(matched, p1).
       if matched then Some (Inr (Literal (JBoolean False), p1)) else
     and_then (returning (Parser_match p1 [TRUE])) (\<lambda>(matched, p2).
       if matched then Some (Inr (Literal (JBoolean True), p2)) else
     and_then (returning (Parser_match p2 [NIL])) (\<lambda>(matched, p3).
       if matched then Some (Inr (Literal JNull, p3)) else
     and_then (returning (Parser_match p3 [NUMBER, STRING])) (\<lambda>(matched, p4).
       if matched then
         and_then (defined (previous p4) ''literal'') (\<lambda>t.
           Some (Inr (Literal (literal t), p4)))
       else
     and_then (returning (Parser_match p4 [LEFT_PAREN])) (\<lambda>(matched, p5).
       if matched then
         and_then (expression n p5) (\<lambda>(expr, p6).
         and_then (returning (consume p6 RIGHT_PAREN ''Expect ')' after expression'')) (\<lambda>p7.
           Some (Inr (Grouping expr, p7))))
       else
         and_then (defined (Parser_peek p5) ''type'') (\<lambda>t.
           Some (Inl (ParseError t ''Expect expression''))))))))"
  by pat_completeness auto
termination
  by (relation "measure (case_sum
    (case_sum (case_sum (\<lambda>p. fst p) (\<lambda>p. fst p))
      (case_sum (\<lambda>p. fst p)
        (case_sum (\<lambda>p. fst p) (\<lambda>p. fst p))))
    (case_sum
      (case_sum (\<lambda>p. fst p)
        (case_sum (\<lambda>p. fst p) (\<lambda>p. fst p)))
      (case_sum (\<lambda>p. fst p)
        (case_sum (\<lambda>p. fst p) (\<lambda>p. fst p)))))") simp_all


text \<open>
  \<open>parse\<close>: \<open>try { return this.expression() } catch (error) { return null }\<close>.
  \<open>None\<close> inside the result is \<open>null\<close>.
\<close>

definition parse ::
  "nat \<Rightarrow> 'n Parser \<Rightarrow> 'n globals \<Rightarrow> ('n Expr option \<times> 'n globals) option" where
  "parse n p g =
     (case expression n p of
        None \<Rightarrow> None
      | Some (Inl (ParseError token message)) \<Rightarrow> Some (None, Parser_error token message g)
      | Some (Inl (TypeError message)) \<Rightarrow> Some (None, g)
      | Some (Inr (expr, p')) \<Rightarrow> Some (Some expr, g))"

section \<open>Driver\<close>

text \<open>
  \<open>Interpreter.interpret\<close>: \<open>evaluate(null)\<close> reads \<open>null.accept\<close>, a \<open>TypeError\<close>,
  which the \<open>catch\<close> throws again. The first component of the result is what was
  thrown, if anything.
\<close>

definition Interpreter_interpret ::
  "'n host \<Rightarrow> nat \<Rightarrow> 'n Expr option \<Rightarrow> 'n globals \<Rightarrow> ('n thrown option \<times> 'n globals) option"
  where
  "Interpreter_interpret h n expr g =
     (case expr of
        None \<Rightarrow> Some (Some (TypeError ''Cannot read properties of null (reading 'accept')''), g)
      | Some e \<Rightarrow>
          (case evaluate h n e of
             None \<Rightarrow> None
           | Some v \<Rightarrow> Some (None, g\<lparr>stdout := stdout g @ [v]\<rparr>)))"

text \<open>
  \<open>run\<close>: scan, parse, interpret; the test of \<open>hadError\<close> after \<open>interpret\<close> returns
  either way. The bound \<open>n\<close> is the one of the parser and of the interpreter.
\<close>

definition run ::
  "'n host \<Rightarrow> nat \<Rightarrow> string \<Rightarrow> 'n globals \<Rightarrow> ('n thrown option \<times> 'n globals) option" where
  "run h n src g =
     (case scanTokens h (new_Scanner src) g of
        (toks, g1) \<Rightarrow>
          (case parse n (new_Parser toks) g1 of
             None \<Rightarrow> None
           | Some (expr, g2) \<Rightarrow> Interpreter_interpret h n expr g2))"

text \<open>How a call of the driver ends: it returns, it calls \<open>exit\<close>, or it throws.\<close>

datatype 'n completion = Returns | Exits int | Throws "'n thrown"

text \<open>\<open>runFile\<close>, given the content of the file.\<close>

definition runFile ::
  "'n host \<Rightarrow> nat \<Rightarrow> string \<Rightarrow> 'n globals \<Rightarrow> ('n completion \<times> 'n globals) option" where
  "runFile h n content g =
     (case run h n content g of
        None \<Rightarrow> None
      | Some (Some e, g1) \<Rightarrow> Some (Throws e, g1)
      | Some (None, g1) \<Rightarrow> if hadError g1 then Some (Exits 65, g1) else Some (Returns, g1))"

text \<open>
  \<open>main\<close> with one argument, the path of a file with the given content: what
  \<open>runFile\<close> throws rejects the promise of \<open>main\<close>, and its \<open>catch\<close> prints the
  message and calls \<open>exit(-1)\<close>.
\<close>

definition main_file ::
  "'n host \<Rightarrow> nat \<Rightarrow> string \<Rightarrow> 'n globals \<Rightarrow> ('n completion \<times> 'n globals) option" where
  "main_file h n content g =
     (case runFile h n content g of
        None \<Rightarrow> None
      | Some (Throws e, g1) \<Rightarrow>
          Some (Exits (- 1), g1\<lparr>stderr := stderr g1 @ [Uncaught (message_of e)]\<rparr>)
      | Some (c, g1) \<Rightarrow> Some (c, g1))"

text \<open>The globals when the program starts: \<open>let hadError = false\<close>, nothing printed.\<close>

definition initial_globals :: "'n globals" where
  "initial_globals = \<lparr>hadError = False, stderr = [], stdout = []\<rparr>"

section \<open>A host for running examples\<close>

text \<open>
  To run the model on a concrete input the host must be given. \<open>exact_host\<close>
  computes with exact rationals, the two infinities and NaN. It agrees with
  IEEE-754 binary64 wherever operands and result are integers below \<open>2^53\<close> in
  magnitude and no negative zero is involved, which is all the examples below
  use. Its \<open>string_to_number\<close> reads the decimal literals the scanner passes to
  \<open>Number(...)\<close> (digits, then optionally a point and digits) and answers NaN
  for every other string; its \<open>number_to_string\<close> prints integers, and shows a
  finite Number that is no integer as a fraction, which the host never prints.
  No statement about every host depends on \<open>exact_host\<close>.
\<close>

datatype exact_number = Fin rat | PosInf | NegInf | NaN

fun exact_neg :: "exact_number \<Rightarrow> exact_number" where
  "exact_neg (Fin q) = Fin (- q)"
| "exact_neg PosInf = NegInf"
| "exact_neg NegInf = PosInf"
| "exact_neg NaN = NaN"

fun exact_add :: "exact_number \<Rightarrow> exact_number \<Rightarrow> exact_number" where
  "exact_add (Fin p) (Fin q) = Fin (p + q)"
| "exact_add NaN y = NaN"
| "exact_add x NaN = NaN"
| "exact_add PosInf NegInf = NaN"
| "exact_add NegInf PosInf = NaN"
| "exact_add PosInf y = PosInf"
| "exact_add NegInf y = NegInf"
| "exact_add x PosInf = PosInf"
| "exact_add x NegInf = NegInf"

definition exact_sub :: "exact_number \<Rightarrow> exact_number \<Rightarrow> exact_number" where
  "exact_sub x y = exact_add x (exact_neg y)"

fun exact_mul :: "exact_number \<Rightarrow> exact_number \<Rightarrow> exact_number" where
  "exact_mul (Fin p) (Fin q) = Fin (p * q)"
| "exact_mul NaN y = NaN"
| "exact_mul x NaN = NaN"
| "exact_mul (Fin p) PosInf = (if p = 0 then NaN else if 0 < p then PosInf else NegInf)"
| "exact_mul (Fin p) NegInf = (if p = 0 then NaN else if 0 < p then NegInf else PosInf)"
| "exact_mul PosInf (Fin q) = (if q = 0 then NaN else if 0 < q then PosInf else NegInf)"
| "exact_mul NegInf (Fin q) = (if q = 0 then NaN else if 0 < q then NegInf else PosInf)"
| "exact_mul PosInf PosInf = PosInf"
| "exact_mul NegInf NegInf = PosInf"
| "exact_mul PosInf NegInf = NegInf"
| "exact_mul NegInf PosInf = NegInf"

fun exact_div :: "exact_number \<Rightarrow> exact_number \<Rightarrow> exact_number" where
  "exact_div (Fin p) (Fin q) =
     (if q = 0 then (if p = 0 then NaN else if 0 < p then PosInf else NegInf)
      else Fin (p / q))"
| "exact_div NaN y = NaN"
| "exact_div x NaN = NaN"
| "exact_div (Fin p) y = Fin 0"
| "exact_div PosInf (Fin q) = (if 0 \<le> q then PosInf else NegInf)"
| "exact_div NegInf (Fin q) = (if 0 \<le> q then NegInf else PosInf)"
| "exact_div x y = NaN"

fun exact_lt :: "exact_number \<Rightarrow> exact_number \<Rightarrow> bool option" where
  "exact_lt (Fin p) (Fin q) = Some (p < q)"
| "exact_lt NaN y = None"
| "exact_lt x NaN = None"
| "exact_lt x NegInf = Some False"
| "exact_lt PosInf y = Some False"
| "exact_lt NegInf y = Some True"
| "exact_lt x PosInf = Some True"

fun exact_eq :: "exact_number \<Rightarrow> exact_number \<Rightarrow> bool" where
  "exact_eq (Fin p) (Fin q) = (p = q)"
| "exact_eq PosInf PosInf = True"
| "exact_eq NegInf NegInf = True"
| "exact_eq x y = False"

definition is_decimal_digit :: "char \<Rightarrow> bool" where
  "is_decimal_digit c = (48 \<le> (of_char c :: nat) \<and> (of_char c :: nat) \<le> 57)"

fun digits_value :: "nat \<Rightarrow> string \<Rightarrow> nat" where
  "digits_value acc [] = acc"
| "digits_value acc (c # cs) = digits_value (10 * acc + (of_char c - 48)) cs"

definition exact_of_string :: "string \<Rightarrow> exact_number" where
  "exact_of_string s =
     (let whole = takeWhile is_decimal_digit s; rest = dropWhile is_decimal_digit s in
      if whole = [] then NaN
      else if rest = [] then Fin (of_nat (digits_value 0 whole))
      else if hd rest = CHR ''.'' \<and> tl rest \<noteq> [] \<and> list_all is_decimal_digit (tl rest)
      then Fin (of_nat (digits_value 0 (whole @ tl rest)) / 10 ^ length (tl rest))
      else NaN)"

fun nat_to_string :: "nat \<Rightarrow> string" where
  "nat_to_string n =
     (if n < 10 then [char_of (48 + n)]
      else nat_to_string (n div 10) @ [char_of (48 + n mod 10)])"

fun exact_to_string :: "exact_number \<Rightarrow> string" where
  "exact_to_string (Fin q) =
     (let (a, b) = quotient_of q;
          digits = nat_to_string (nat \<bar>a\<bar>);
          shown = (if b = 1 then digits else digits @ ''/'' @ nat_to_string (nat b))
      in if a < 0 then CHR ''-'' # shown else shown)"
| "exact_to_string PosInf = ''Infinity''"
| "exact_to_string NegInf = ''-Infinity''"
| "exact_to_string NaN = ''NaN''"

definition exact_host :: "exact_number host" where
  "exact_host =
     \<lparr>num_add = exact_add, num_sub = exact_sub, num_mul = exact_mul, num_div = exact_div,
      num_neg = exact_neg, num_lt = exact_lt, num_eq = exact_eq,
      num_zero = Fin 0, num_one = Fin 1, num_nan = NaN,
      string_to_number = exact_of_string, number_to_string = exact_to_string\<rparr>"

section \<open>Predicates used in the statements and proofs\<close>

text \<open>
  What one or more steps of the scanner may change: the cursor and the line counter
  never decrease, and the tokens added are no \<open>EOF\<close> tokens, with lines in order
  between the old and the new line counter.
\<close>

definition scan_step :: "'n Scanner \<Rightarrow> 'n Scanner \<Rightarrow> bool" where
  "scan_step s s' \<longleftrightarrow>
     source s' = source s \<and> Scanner.current s \<le> Scanner.current s'
     \<and> Scanner.line s \<le> Scanner.line s'
     \<and> (\<exists>new. Scanner.tokens s' = Scanner.tokens s @ new
          \<and> sorted (map Token.line new)
          \<and> (\<forall>t \<in> set new. type t \<noteq> Member EOF \<and> Scanner.line s \<le> Token.line t
                \<and> Token.line t \<le> Scanner.line s'))"

text \<open>Whether a tree has a \<open>Grouping\<close> node, and the height of a tree.\<close>

fun has_Grouping :: "'n Expr \<Rightarrow> bool" where
  "has_Grouping (Literal v) = False"
| "has_Grouping (Grouping e) = True"
| "has_Grouping (Unary operator right) = has_Grouping right"
| "has_Grouping (Binary left operator right) = (has_Grouping left \<or> has_Grouping right)"

fun depth :: "'n Expr \<Rightarrow> nat" where
  "depth (Literal v) = 1"
| "depth (Grouping e) = Suc (depth e)"
| "depth (Unary operator right) = Suc (depth right)"
| "depth (Binary left operator right) = Suc (max (depth left) (depth right))"

text \<open>The operator tokens of the \<open>Unary\<close> and of the \<open>Binary\<close> nodes of a tree.\<close>

fun unary_operators :: "'n Expr \<Rightarrow> 'n Token list" where
  "unary_operators (Literal v) = []"
| "unary_operators (Grouping e) = unary_operators e"
| "unary_operators (Unary operator right) = operator # unary_operators right"
| "unary_operators (Binary left operator right) = unary_operators left @ unary_operators right"

fun binary_operators :: "'n Expr \<Rightarrow> 'n Token list" where
  "binary_operators (Literal v) = []"
| "binary_operators (Grouping e) = binary_operators e"
| "binary_operators (Unary operator right) = binary_operators right"
| "binary_operators (Binary left operator right) =
     binary_operators left @ operator # binary_operators right"

text \<open>
  A tree whose \<open>Unary\<close> operators are \<open>!\<close> or \<open>-\<close> and whose \<open>Binary\<close> operators are
  among the ten that \<open>visitBinaryExpr\<close> has a \<open>case\<close> for; and a result of a grammar
  method that, when it is an expression, is such a tree.
\<close>

definition handled :: "'n Expr \<Rightarrow> bool" where
  "handled e \<longleftrightarrow>
     (\<forall>t \<in> set (unary_operators e). type t \<in> {Member BANG, Member MINUS})
     \<and> (\<forall>t \<in> set (binary_operators e). type t \<in> {Member BANG_EQUAL, Member EQUAL_EQUAL,
        Member GREATER, Member GREATER_EQUAL, Member LESS, Member LESS_EQUAL, Member MINUS,
        Member PLUS, Member SLASH, Member STAR})"

definition ok_result :: "('n thrown + 'n Expr \<times> 'n Parser) option \<Rightarrow> bool" where
  "ok_result r \<longleftrightarrow> (\<forall>e p. r = Some (Inr (e, p)) \<longrightarrow> handled e)"

section \<open>Properties of the interpreter\<close>

text \<open>
  C1 (the code departs from it): a \<open>Binary\<close> expression with operator \<open>*\<close> and Number
  operands should evaluate to the product of the operands. The case \<open>STAR\<close> of
  \<open>visitBinaryExpr\<close> returns \<open>left + right\<close>: \<open>2 * 3\<close> evaluates to \<open>5\<close>, while the
  product is \<open>6\<close>.
\<close>
theorem star_is_addition:
  "evaluate exact_host 2
     (Binary (Literal (JNumber (Fin 2))) (Token (Member STAR) ''*'' JNull 1)
        (Literal (JNumber (Fin 3)))) = Some (JNumber (Fin 5))
   \<and> num_mul exact_host (Fin 2) (Fin 3) = Fin 6"
  by code_simp

text \<open>
  C2 (the code departs from it): evaluation should terminate, and a \<open>Grouping\<close> node
  should evaluate to the value of its inner expression. \<open>visitGroupingExpr\<close> evaluates
  its own node again, so no bound on the depth of calls is enough for the
  evaluation of a \<open>Grouping\<close> node to return a value.
\<close>
theorem evaluate_Grouping_never_returns:
  "evaluate h n (Grouping inner) = None"
  by (induction n) simp_all

lemma evaluate_without_Grouping:
  "\<not> has_Grouping e \<Longrightarrow> depth e \<le> n \<Longrightarrow> \<exists>v. evaluate h n e = Some v"
proof (induction e arbitrary: n)
  case (Binary l operator r)
  then obtain m where n: "n = Suc m" by (cases n) auto
  with Binary.prems have "depth l \<le> m" "depth r \<le> m" "\<not> has_Grouping l" "\<not> has_Grouping r"
    by auto
  with Binary.IH obtain lv rv where "evaluate h m l = Some lv" "evaluate h m r = Some rv"
    by blast
  with n show ?case by simp
next
  case (Grouping e)
  then show ?case by simp
next
  case (Literal v)
  then obtain m where "n = Suc m" by (cases n) auto
  then show ?case by simp
next
  case (Unary operator right)
  then obtain m where n: "n = Suc m" by (cases n) auto
  with Unary.prems have "depth right \<le> m" "\<not> has_Grouping right" by auto
  with Unary.IH obtain v where "evaluate h m right = Some v" by blast
  with n show ?case by simp
qed

lemma evaluate_with_Grouping:
  "has_Grouping e \<Longrightarrow> evaluate h n e = None"
proof (induction n arbitrary: e)
  case 0
  show ?case by simp
next
  case (Suc n)
  show ?case
  proof (cases e)
    case (Binary l operator r)
    with Suc.prems have "has_Grouping l \<or> has_Grouping r" by simp
    with Suc.IH [of l] Suc.IH [of r] have "evaluate h n l = None \<or> evaluate h n r = None"
      by auto
    with Binary show ?thesis by (auto split: option.splits)
  next
    case (Grouping inner)
    with Suc.IH [of "Grouping inner"] show ?thesis by simp
  next
    case (Literal v)
    with Suc.prems show ?thesis by simp
  next
    case (Unary operator right)
    with Suc.prems Suc.IH [of right] show ?thesis by simp
  qed
qed

text \<open>
  So evaluation returns a value, for a bound on the depth of calls that is large
  enough, exactly on the trees that have no \<open>Grouping\<close> node.
\<close>

theorem evaluate_returns_iff_no_Grouping:
  "(\<exists>n v. evaluate h n e = Some v) \<longleftrightarrow> \<not> has_Grouping e"
proof
  assume "\<exists>n v. evaluate h n e = Some v"
  then show "\<not> has_Grouping e"
    using evaluate_with_Grouping [of e h] by auto
next
  assume "\<not> has_Grouping e"
  then show "\<exists>n v. evaluate h n e = Some v"
    using evaluate_without_Grouping [of e "depth e" h] by blast
qed

text \<open>
  C3, as amended: when the operands of a \<open>Binary\<close> expression with operator \<open>+\<close>
  have values, the expression has a value. Two Numbers give their sum, two strings
  their concatenation. Every other pair gives a value as well and no error: the
  concatenation of the operands' string forms when an operand is a string, and
  otherwise the sum of the operands converted to Numbers.
\<close>
theorem plus_coerces:
  assumes "type operator = Member PLUS"
    and "evaluate h n l = Some lv" and "evaluate h n r = Some rv"
  shows "\<exists>v. evaluate h (Suc n) (Binary l operator r) = Some v
    \<and> (\<forall>a b. lv = JNumber a \<and> rv = JNumber b \<longrightarrow> v = JNumber (num_add h a b))
    \<and> (\<forall>s t. lv = JString s \<and> rv = JString t \<longrightarrow> v = JString (s @ t))
    \<and> (is_string lv \<or> is_string rv \<longrightarrow> v = JString (ToString h lv @ ToString h rv))
    \<and> (\<not> is_string lv \<and> \<not> is_string rv \<longrightarrow>
          v = JNumber (num_add h (ToNumber h lv) (ToNumber h rv)))"
  using assms by (simp add: visitBinaryExpr_switch_def returned_def js_add_def)

text \<open>
  C3 as stated fails: \<open>1 + "a"\<close> is no error, it evaluates to the string \<open>"1a"\<close>.
\<close>
theorem plus_number_string_counterexample:
  "evaluate exact_host 2
     (Binary (Literal (JNumber (Fin 1))) (Token (Member PLUS) ''+'' JNull 1)
        (Literal (JString ''a''))) = Some (JString ''1a'')"
  by code_simp

text \<open>
  C4, as amended: when the operands of unary \<open>-\<close> or of binary \<open>-\<close>, \<open>/\<close>, \<open>>\<close>,
  \<open>>=\<close>, \<open><\<close>, \<open><=\<close> have values, whatever their kinds, the expression has a
  value and no error is raised: \<open>-\<close> and \<open>/\<close> give the host's result on the
  operands converted to Numbers, and the comparisons give a Boolean, the host's
  comparison of the operands (two strings as strings, any other pair converted to
  Numbers).
\<close>
theorem number_operators_coerce:
  "(type operator = Member MINUS \<and> evaluate h n e = Some v \<longrightarrow>
      evaluate h (Suc n) (Unary operator e) = Some (JNumber (num_neg h (ToNumber h v))))
   \<and> (evaluate h n l = Some lv \<and> evaluate h n r = Some rv \<longrightarrow>
       (type operator = Member MINUS \<longrightarrow>
          evaluate h (Suc n) (Binary l operator r) =
            Some (JNumber (num_sub h (ToNumber h lv) (ToNumber h rv))))
     \<and> (type operator = Member SLASH \<longrightarrow>
          evaluate h (Suc n) (Binary l operator r) =
            Some (JNumber (num_div h (ToNumber h lv) (ToNumber h rv))))
     \<and> (type operator = Member GREATER \<longrightarrow>
          evaluate h (Suc n) (Binary l operator r) =
            Some (JBoolean (IsLessThan h rv lv = Some True)))
     \<and> (type operator = Member GREATER_EQUAL \<longrightarrow>
          evaluate h (Suc n) (Binary l operator r) =
            Some (JBoolean (IsLessThan h lv rv = Some False)))
     \<and> (type operator = Member LESS \<longrightarrow>
          evaluate h (Suc n) (Binary l operator r) =
            Some (JBoolean (IsLessThan h lv rv = Some True)))
     \<and> (type operator = Member LESS_EQUAL \<longrightarrow>
          evaluate h (Suc n) (Binary l operator r) =
            Some (JBoolean (IsLessThan h rv lv = Some False))))"
  by (simp add: visitUnaryExpr_switch_def visitBinaryExpr_switch_def returned_def
      js_neg_def js_sub_def js_div_def js_gt_def js_ge_def js_lt_def js_le_def)

text \<open>
  C4 as stated fails: \<open>-true\<close> is no error, it evaluates to the Number \<open>-1\<close>.
\<close>
theorem negate_boolean_counterexample:
  "evaluate exact_host 2 (Unary (Token (Member MINUS) ''-'' JNull 1) (Literal (JBoolean True)))
     = Some (JNumber (Fin (- 1)))"
  by code_simp

text \<open>
  C6: a \<open>Unary\<close> expression with operator \<open>!\<close> whose operand has the value \<open>v\<close>, a
  Number, a string, a Boolean or nil, evaluates to the Boolean that is true exactly
  when \<open>v\<close> is nil or the Boolean false. So nil and false are the falsy values, and
  the Number \<open>0\<close> and the empty string are truthy.
\<close>
theorem bang_negates_truthiness:
  assumes "type operator = Member BANG"
    and "evaluate h n e = Some v" and "v \<noteq> JUndefined"
  shows "evaluate h (Suc n) (Unary operator e) = Some (JBoolean (v = JNull \<or> v = JBoolean False))"
  using assms by (cases v) (auto simp: visitUnaryExpr_switch_def returned_def)

text \<open>
  C7: when the operands have values, \<open>==\<close> evaluates to a Boolean, true exactly when
  the two values are of the same kind and have equal payloads, Numbers being
  compared by the host's equality of Numbers; \<open>!=\<close> evaluates to the negation.
  Neither fails.
\<close>
theorem equality_compares_tag_and_payload:
  assumes "evaluate h n l = Some lv" and "evaluate h n r = Some rv"
  shows "(type operator = Member EQUAL_EQUAL \<longrightarrow>
            evaluate h (Suc n) (Binary l operator r) =
              Some (JBoolean ((\<exists>x y. lv = JNumber x \<and> rv = JNumber y \<and> num_eq h x y)
                \<or> (\<exists>s. lv = JString s \<and> rv = JString s)
                \<or> (\<exists>c. lv = JBoolean c \<and> rv = JBoolean c)
                \<or> (lv = JNull \<and> rv = JNull)
                \<or> (lv = JUndefined \<and> rv = JUndefined))))
       \<and> (type operator = Member BANG_EQUAL \<longrightarrow>
            evaluate h (Suc n) (Binary l operator r) =
              Some (JBoolean (\<not> ((\<exists>x y. lv = JNumber x \<and> rv = JNumber y \<and> num_eq h x y)
                \<or> (\<exists>s. lv = JString s \<and> rv = JString s)
                \<or> (\<exists>c. lv = JBoolean c \<and> rv = JBoolean c)
                \<or> (lv = JNull \<and> rv = JNull)
                \<or> (lv = JUndefined \<and> rv = JUndefined)))))"
  using assms
  by (cases lv; cases rv) (auto simp add: visitBinaryExpr_switch_def returned_def)

text \<open>\<open>1 == 1\<close> is true, \<open>1 == "1"\<close> is false and \<open>1 != "1"\<close> is true.\<close>
theorem equality_witness:
  "evaluate exact_host 2
     (Binary (Literal (JNumber (Fin 1))) (Token (Member EQUAL_EQUAL) ''=='' JNull 1)
        (Literal (JNumber (Fin 1)))) = Some (JBoolean True)
   \<and> evaluate exact_host 2
     (Binary (Literal (JNumber (Fin 1))) (Token (Member EQUAL_EQUAL) ''=='' JNull 1)
        (Literal (JString ''1''))) = Some (JBoolean False)
   \<and> evaluate exact_host 2
     (Binary (Literal (JNumber (Fin 1))) (Token (Member BANG_EQUAL) ''!='' JNull 1)
        (Literal (JString ''1''))) = Some (JBoolean True)"
  using equality_compares_tag_and_payload [where h = exact_host and n = 1
      and l = "Literal (JNumber (Fin 1))" and lv = "JNumber (Fin 1)"
      and r = "Literal (JNumber (Fin 1))" and rv = "JNumber (Fin 1)"
      and operator = "Token (Member EQUAL_EQUAL) ''=='' JNull 1"]
    equality_compares_tag_and_payload [where h = exact_host and n = 1
      and l = "Literal (JNumber (Fin 1))" and lv = "JNumber (Fin 1)"
      and r = "Literal (JString ''1'')" and rv = "JString ''1''"
      and operator = "Token (Member EQUAL_EQUAL) ''=='' JNull 1"]
    equality_compares_tag_and_payload [where h = exact_host and n = 1
      and l = "Literal (JNumber (Fin 1))" and lv = "JNumber (Fin 1)"
      and r = "Literal (JString ''1'')" and rv = "JString ''1''"
      and operator = "Token (Member BANG_EQUAL) ''!='' JNull 1"]
  by (simp add: exact_host_def numeral_2_eq_2)

text \<open>\<open>!0\<close> is false, \<open>!nil\<close> is true, \<open>!true\<close> is false and \<open>!""\<close> is false.\<close>
theorem bang_witness:
  "evaluate exact_host 2 (Unary (Token (Member BANG) ''!'' JNull 1) (Literal (JNumber (Fin 0))))
     = Some (JBoolean False)
   \<and> evaluate exact_host 2 (Unary (Token (Member BANG) ''!'' JNull 1) (Literal JNull))
     = Some (JBoolean True)
   \<and> evaluate exact_host 2 (Unary (Token (Member BANG) ''!'' JNull 1) (Literal (JBoolean True)))
     = Some (JBoolean False)
   \<and> evaluate exact_host 2 (Unary (Token (Member BANG) ''!'' JNull 1) (Literal (JString [])))
     = Some (JBoolean False)"
  using bang_negates_truthiness [where h = exact_host and n = 1
      and operator = "Token (Member BANG) ''!'' JNull 1"
      and e = "Literal (JNumber (Fin 0))" and v = "JNumber (Fin 0)"]
    bang_negates_truthiness [where h = exact_host and n = 1
      and operator = "Token (Member BANG) ''!'' JNull 1"
      and e = "Literal JNull" and v = JNull]
    bang_negates_truthiness [where h = exact_host and n = 1
      and operator = "Token (Member BANG) ''!'' JNull 1"
      and e = "Literal (JBoolean True)" and v = "JBoolean True"]
    bang_negates_truthiness [where h = exact_host and n = 1
      and operator = "Token (Member BANG) ''!'' JNull 1"
      and e = "Literal (JString [])" and v = "JString []"]
  by (simp add: numeral_2_eq_2)

text \<open>\<open>1 + 2\<close> is \<open>3\<close>, \<open>"a" + "b"\<close> is \<open>"ab"\<close>, \<open>nil + "a"\<close> is \<open>"nulla"\<close>, \<open>true + 1\<close> is \<open>2\<close>.\<close>
theorem plus_witness:
  "evaluate exact_host 2
     (Binary (Literal (JNumber (Fin 1))) (Token (Member PLUS) ''+'' JNull 1)
        (Literal (JNumber (Fin 2)))) = Some (JNumber (Fin 3))
   \<and> evaluate exact_host 2
     (Binary (Literal (JString ''a'')) (Token (Member PLUS) ''+'' JNull 1)
        (Literal (JString ''b''))) = Some (JString ''ab'')
   \<and> evaluate exact_host 2
     (Binary (Literal JNull) (Token (Member PLUS) ''+'' JNull 1)
        (Literal (JString ''a''))) = Some (JString ''nulla'')
   \<and> evaluate exact_host 2
     (Binary (Literal (JBoolean True)) (Token (Member PLUS) ''+'' JNull 1)
        (Literal (JNumber (Fin 1)))) = Some (JNumber (Fin 2))"
  using plus_coerces [where h = exact_host and n = 1
      and operator = "Token (Member PLUS) ''+'' JNull 1"
      and l = "Literal (JNumber (Fin 1))" and lv = "JNumber (Fin 1)"
      and r = "Literal (JNumber (Fin 2))" and rv = "JNumber (Fin 2)"]
    plus_coerces [where h = exact_host and n = 1
      and operator = "Token (Member PLUS) ''+'' JNull 1"
      and l = "Literal (JString ''a'')" and lv = "JString ''a''"
      and r = "Literal (JString ''b'')" and rv = "JString ''b''"]
    plus_coerces [where h = exact_host and n = 1
      and operator = "Token (Member PLUS) ''+'' JNull 1"
      and l = "Literal JNull" and lv = JNull
      and r = "Literal (JString ''a'')" and rv = "JString ''a''"]
    plus_coerces [where h = exact_host and n = 1
      and operator = "Token (Member PLUS) ''+'' JNull 1"
      and l = "Literal (JBoolean True)" and lv = "JBoolean True"
      and r = "Literal (JNumber (Fin 1))" and rv = "JNumber (Fin 1)"]
  by (auto simp add: exact_host_def numeral_2_eq_2)

text \<open>
  \<open>-"1"\<close> is \<open>-1\<close>, \<open>true - 3\<close> is \<open>-2\<close>, \<open>"a" < "b"\<close> is true and
  \<open>nil >= false\<close> is true.
\<close>
theorem number_operators_witness:
  "evaluate exact_host 2 (Unary (Token (Member MINUS) ''-'' JNull 1) (Literal (JString ''1'')))
     = Some (JNumber (Fin (- 1)))
   \<and> evaluate exact_host 2
     (Binary (Literal (JBoolean True)) (Token (Member MINUS) ''-'' JNull 1)
        (Literal (JNumber (Fin 3)))) = Some (JNumber (Fin (- 2)))
   \<and> evaluate exact_host 2
     (Binary (Literal (JString ''a'')) (Token (Member LESS) ''<'' JNull 1)
        (Literal (JString ''b''))) = Some (JBoolean True)
   \<and> evaluate exact_host 2
     (Binary (Literal JNull) (Token (Member GREATER_EQUAL) ''>='' JNull 1)
        (Literal (JBoolean False))) = Some (JBoolean True)"
proof -
  have str: "exact_of_string ''1'' = Fin 1"
    by code_simp
  show ?thesis
    using number_operators_coerce [where h = exact_host and n = 1
        and operator = "Token (Member MINUS) ''-'' JNull 1"
        and e = "Literal (JString ''1'')" and v = "JString ''1''"
        and l = "Literal (JBoolean True)" and lv = "JBoolean True"
        and r = "Literal (JNumber (Fin 3))" and rv = "JNumber (Fin 3)"]
      number_operators_coerce [where h = exact_host and n = 1
        and operator = "Token (Member LESS) ''<'' JNull 1"
        and e = "Literal JNull" and v = JNull
        and l = "Literal (JString ''a'')" and lv = "JString ''a''"
        and r = "Literal (JString ''b'')" and rv = "JString ''b''"]
      number_operators_coerce [where h = exact_host and n = 1
        and operator = "Token (Member GREATER_EQUAL) ''>='' JNull 1"
        and e = "Literal JNull" and v = JNull
        and l = "Literal JNull" and lv = JNull
        and r = "Literal (JBoolean False)" and rv = "JBoolean False"]
    by (simp add: exact_host_def exact_sub_def str numeral_2_eq_2)
qed

section \<open>Properties of the scanner\<close>

text \<open>The loops are unfolded by hand, one step at a time.\<close>

declare comment_loop.simps [simp del] string_loop.simps [simp del]
  digits_loop.simps [simp del] identifier_loop.simps [simp del]

lemma comment_loop_frame:
  "source (comment_loop s) = source s \<and> Scanner.current s \<le> Scanner.current (comment_loop s)
   \<and> Scanner.tokens (comment_loop s) = Scanner.tokens s
   \<and> Scanner.line (comment_loop s) = Scanner.line s"
proof (induction s rule: comment_loop.induct)
  case (1 s)
  show ?case
  proof (cases "Scanner_peek s \<noteq> CHR 0x0A \<and> \<not> Scanner_isAtEnd s")
    case True
    with 1 show ?thesis
      by (subst (1 2 3 4) comment_loop.simps) (auto simp: Scanner_advance_def)
  next
    case False
    then show ?thesis
      by (subst (1 2 3 4) comment_loop.simps) auto
  qed
qed

lemma string_loop_frame:
  "source (string_loop s) = source s \<and> Scanner.current s \<le> Scanner.current (string_loop s)
   \<and> Scanner.tokens (string_loop s) = Scanner.tokens s
   \<and> Scanner.line s \<le> Scanner.line (string_loop s)"
proof (induction s rule: string_loop.induct)
  case (1 s)
  show ?case
  proof (cases "Scanner_peek s \<noteq> CHR 0x22 \<and> \<not> Scanner_isAtEnd s")
    case True
    with 1 show ?thesis
      by (subst (1 2 3 4) string_loop.simps) (auto simp: Scanner_advance_def split: if_splits)
  next
    case False
    then show ?thesis
      by (subst (1 2 3 4) string_loop.simps) auto
  qed
qed

lemma digits_loop_frame:
  "source (digits_loop s) = source s \<and> Scanner.current s \<le> Scanner.current (digits_loop s)
   \<and> Scanner.tokens (digits_loop s) = Scanner.tokens s
   \<and> Scanner.line (digits_loop s) = Scanner.line s"
proof (induction s rule: digits_loop.induct)
  case (1 s)
  show ?case
  proof (cases "isDigit (Scanner_peek s)")
    case True
    with 1 show ?thesis
      by (subst (1 2 3 4) digits_loop.simps) (auto simp: Scanner_advance_def)
  next
    case False
    then show ?thesis
      by (subst (1 2 3 4) digits_loop.simps) auto
  qed
qed

lemma identifier_loop_frame:
  "source (identifier_loop s) = source s
   \<and> Scanner.current s \<le> Scanner.current (identifier_loop s)
   \<and> Scanner.tokens (identifier_loop s) = Scanner.tokens s
   \<and> Scanner.line (identifier_loop s) = Scanner.line s"
proof (induction s rule: identifier_loop.induct)
  case (1 s)
  show ?case
  proof (cases "isAlphaNumeric (Scanner_peek s)")
    case True
    with 1 show ?thesis
      by (subst (1 2 3 4) identifier_loop.simps) (auto simp: Scanner_advance_def)
  next
    case False
    then show ?thesis
      by (subst (1 2 3 4) identifier_loop.simps) auto
  qed
qed


lemma scan_step_refl: "scan_step s s"
  by (simp add: scan_step_def)

lemma scan_step_trans:
  assumes "scan_step s1 s2" and "scan_step s2 s3"
  shows "scan_step s1 s3"
proof -
  from assms(1) obtain new1 where n1: "Scanner.tokens s2 = Scanner.tokens s1 @ new1"
    "sorted (map Token.line new1)"
    "\<forall>t \<in> set new1. type t \<noteq> Member EOF \<and> Scanner.line s1 \<le> Token.line t
        \<and> Token.line t \<le> Scanner.line s2"
    by (auto simp: scan_step_def)
  from assms(2) obtain new2 where n2: "Scanner.tokens s3 = Scanner.tokens s2 @ new2"
    "sorted (map Token.line new2)"
    "\<forall>t \<in> set new2. type t \<noteq> Member EOF \<and> Scanner.line s2 \<le> Token.line t
        \<and> Token.line t \<le> Scanner.line s3"
    by (auto simp: scan_step_def)
  have l: "Scanner.line s1 \<le> Scanner.line s2" "Scanner.line s2 \<le> Scanner.line s3"
    using assms by (auto simp: scan_step_def)
  have "Scanner.tokens s3 = Scanner.tokens s1 @ (new1 @ new2)"
    using n1 n2 by simp
  moreover have "sorted (map Token.line (new1 @ new2))"
    using n1 n2 by (fastforce simp: sorted_append)
  moreover have "\<forall>t \<in> set (new1 @ new2). type t \<noteq> Member EOF
      \<and> Scanner.line s1 \<le> Token.line t \<and> Token.line t \<le> Scanner.line s3"
    using n1 n2 l by fastforce
  ultimately show ?thesis
    using assms unfolding scan_step_def by (metis le_trans)
qed

lemma scan_step_addToken:
  "ty \<noteq> Member EOF \<Longrightarrow> scan_step s (addToken ty lit s)"
  by (simp add: scan_step_def addToken_def)

lemma scan_step_advance: "scan_step s (snd (Scanner_advance s))"
  by (simp add: scan_step_def Scanner_advance_def)

lemma scan_step_match: "scan_step s (snd (Scanner_match c s))"
  by (simp add: scan_step_def Scanner_match_def)

lemma scan_step_frame:
  "source s' = source s \<Longrightarrow> Scanner.current s \<le> Scanner.current s' \<Longrightarrow>
   Scanner.tokens s' = Scanner.tokens s \<Longrightarrow> Scanner.line s \<le> Scanner.line s' \<Longrightarrow>
   scan_step s s'"
  by (simp add: scan_step_def)

lemma scan_step_comment_loop: "scan_step s (comment_loop s)"
  using comment_loop_frame [of s] by (simp add: scan_step_frame)

lemma scan_step_string_loop: "scan_step s (string_loop s)"
  using string_loop_frame [of s] by (simp add: scan_step_frame)

lemma scan_step_digits_loop: "scan_step s (digits_loop s)"
  using digits_loop_frame [of s] by (simp add: scan_step_frame)

lemma scan_step_identifier_loop: "scan_step s (identifier_loop s)"
  using identifier_loop_frame [of s] by (simp add: scan_step_frame)

lemma scan_step_string: "scan_step s (fst (Scanner_string s g))"
proof -
  have a: "scan_step s (string_loop s)" by (rule scan_step_string_loop)
  have b: "scan_step (string_loop s) (snd (Scanner_advance (string_loop s)))"
    by (rule scan_step_advance)
  have c: "scan_step (snd (Scanner_advance (string_loop s)))
      (addToken (Member STRING) lit (snd (Scanner_advance (string_loop s))))" for lit
    by (rule scan_step_addToken) simp
  show ?thesis
    using a scan_step_trans [OF a scan_step_trans [OF b c]]
    by (simp add: Scanner_string_def Let_def)
qed

lemma scan_step_number: "scan_step s (Scanner_number h s)"
proof -
  let ?s1 = "digits_loop s"
  let ?s2 = "if Scanner_peek ?s1 = CHR ''.'' \<and> isDigit (peekNext ?s1)
    then digits_loop (snd (Scanner_advance ?s1)) else ?s1"
  have a: "scan_step s ?s1" by (rule scan_step_digits_loop)
  have "scan_step ?s1 (digits_loop (snd (Scanner_advance ?s1)))"
    by (rule scan_step_trans [OF scan_step_advance scan_step_digits_loop])
  then have "scan_step ?s1 ?s2"
    by (simp add: scan_step_refl)
  with a have b: "scan_step s ?s2" by (rule scan_step_trans)
  have "scan_step ?s2 (addToken (Member NUMBER) lit ?s2)" for lit
    by (rule scan_step_addToken) simp
  with b have "scan_step s (addToken (Member NUMBER) lit ?s2)" for lit
    by (rule scan_step_trans)
  then show ?thesis
    by (simp add: Scanner_number_def Let_def)
qed

lemma KEYWORDS_get_not_EOF: "KEYWORDS_get text \<noteq> Some (Member EOF)"
  by (auto simp: KEYWORDS_get_def KEYWORDS_def split: option.splits if_splits)

lemma scan_step_identifier: "scan_step s (Scanner_identifier s)"
proof -
  let ?s1 = "identifier_loop s"
  let ?text = "substring (source ?s1) (start ?s1) (Scanner.current ?s1)"
  let ?ty = "case KEYWORDS_get ?text of Some t \<Rightarrow> t | None \<Rightarrow> Member IDENTIFIER"
  have "?ty \<noteq> Member EOF"
    using KEYWORDS_get_not_EOF [of ?text] by (auto split: option.splits)
  then have "scan_step ?s1 (addToken ?ty JNull ?s1)"
    by (rule scan_step_addToken)
  with scan_step_identifier_loop have "scan_step s (addToken ?ty JNull ?s1)"
    by (rule scan_step_trans)
  then show ?thesis
    by (simp add: Scanner_identifier_def Let_def)
qed

lemma scan_step_after_advance:
  "scan_step (snd (Scanner_advance s)) s' \<Longrightarrow>
   scan_step s s' \<and> Scanner.current s < Scanner.current s'"
  using scan_step_trans [OF scan_step_advance, of s s']
  by (auto simp: scan_step_def Scanner_advance_def)

lemma scanToken_step:
  "scan_step s (fst (scanToken h s g))
   \<and> Scanner.current s < Scanner.current (fst (scanToken h s g))"
proof (rule scan_step_after_advance)
  let ?s = "snd (Scanner_advance s)"
  have m: "scan_step ?s (addToken ty lit (snd (Scanner_match c ?s)))"
    if "ty \<noteq> Member EOF" for ty lit c
    using scan_step_trans [OF scan_step_match scan_step_addToken [OF that]] .
  have cm: "scan_step ?s (comment_loop (snd (Scanner_match c ?s)))" for c
    using scan_step_trans [OF scan_step_match scan_step_comment_loop] .
  have nl: "scan_step ?s (?s\<lparr>Scanner.line := Suc (Scanner.line ?s)\<rparr>)"
    by (simp add: scan_step_def)
  show "scan_step ?s (fst (scanToken h s g))"
    unfolding scanToken_def
    by (simp add: case_prod_beta Let_def scan_step_addToken m cm nl scan_step_refl
        scan_step_string scan_step_number scan_step_identifier split: option.splits)
qed

lemma scanToken_measure:
  assumes "\<not> Scanner_isAtEnd s"
  shows "(case scanToken h (s\<lparr>start := Scanner.current s\<rparr>) g of
           (s', g') \<Rightarrow> length (source s') - Scanner.current s')
         < length (source s) - Scanner.current s"
proof -
  let ?s' = "fst (scanToken h (s\<lparr>start := Scanner.current s\<rparr>) g)"
  from scanToken_step [of "s\<lparr>start := Scanner.current s\<rparr>" h g]
  have "source ?s' = source s" and "Scanner.current s < Scanner.current ?s'"
    by (simp_all add: scan_step_def)
  with assms show ?thesis
    by (simp add: Scanner_isAtEnd_def case_prod_beta)
qed

termination scanTokens_loop
  by (relation "measure (\<lambda>(h, s, g). length (source s) - Scanner.current s)")
    (simp_all add: scanToken_measure)

declare scanTokens_loop.simps [simp del]

lemma scanTokens_loop_step: "scan_step s (fst (scanTokens_loop h s g))"
proof (induction h s g rule: scanTokens_loop.induct)
  case (1 h s g)
  show ?case
  proof (cases "Scanner_isAtEnd s")
    case True
    then show ?thesis
      by (subst scanTokens_loop.simps) (simp add: scan_step_refl)
  next
    case False
    obtain s' g' where st: "scanToken h (s\<lparr>start := Scanner.current s\<rparr>) g = (s', g')"
      by (cases "scanToken h (s\<lparr>start := Scanner.current s\<rparr>) g")
    have "scan_step (s\<lparr>start := Scanner.current s\<rparr>) s'"
      using scanToken_step [of "s\<lparr>start := Scanner.current s\<rparr>" h g] st by simp
    then have a: "scan_step s s'"
      by (simp add: scan_step_def)
    have b: "scan_step s' (fst (scanTokens_loop h s' g'))"
      using 1 [OF False st [symmetric]] .
    show ?thesis
      using scan_step_trans [OF a b] False st
      by (subst scanTokens_loop.simps) simp
  qed
qed

text \<open>
  C9: for every source text, the token sequence that \<open>scanTokens\<close> returns holds
  exactly one token \<open>EOF\<close>, which is its last, and the lines of its tokens never
  decrease along the sequence.
\<close>
theorem scanTokens_one_EOF_last_lines_sorted:
  "fst (scanTokens h (new_Scanner src) g) \<noteq> []
   \<and> type (last (fst (scanTokens h (new_Scanner src) g))) = Member EOF
   \<and> length (filter (\<lambda>t. type t = Member EOF) (fst (scanTokens h (new_Scanner src) g))) = 1
   \<and> sorted (map Token.line (fst (scanTokens h (new_Scanner src) g)))"
proof -
  obtain s' g' where l: "scanTokens_loop h (new_Scanner src) g = (s', g')"
    by (cases "scanTokens_loop h (new_Scanner src) g")
  have "scan_step (new_Scanner src) s'"
    using scanTokens_loop_step [of "new_Scanner src" h g] l by simp
  then have t: "sorted (map Token.line (Scanner.tokens s'))"
    "\<forall>t \<in> set (Scanner.tokens s'). type t \<noteq> Member EOF \<and> Token.line t \<le> Scanner.line s'"
    by (auto simp: scan_step_def new_Scanner_def)
  have f: "filter (\<lambda>t. type t = Member EOF) (Scanner.tokens s') = []"
    using t(2) by (simp add: filter_empty_conv)
  show ?thesis
    using t f l by (simp add: scanTokens_def sorted_append)
qed


section \<open>Properties of the parser\<close>

lemma ok_result_simps [simp]:
  "ok_result None" "ok_result (Some (Inl x))" "ok_result (Some (Inr (e, p))) = handled e"
  by (simp_all add: ok_result_def)

lemma ok_and_then:
  "(\<And>x. r = Some (Inr x) \<Longrightarrow> ok_result (f x)) \<Longrightarrow> ok_result (and_then r f)"
  by (auto simp: and_then_def split: option.splits sum.splits)

lemma handled_simps [simp]:
  "handled (Literal v)"
  "handled (Grouping e) = handled e"
  "handled (Unary operator right) = (type operator \<in> {Member BANG, Member MINUS} \<and> handled right)"
  "handled (Binary left operator right) =
     (type operator \<in> {Member BANG_EQUAL, Member EQUAL_EQUAL,
        Member GREATER, Member GREATER_EQUAL, Member LESS, Member LESS_EQUAL, Member MINUS,
        Member PLUS, Member SLASH, Member STAR} \<and> handled left \<and> handled right)"
  by (auto simp: handled_def)

lemma check_True:
  "check p ty = Inr True \<Longrightarrow>
   \<exists>t. Parser_peek p = Some t \<and> type t = Member ty \<and> Parser_isAtEnd p = Inr False"
  by (auto simp: check_def Parser_isAtEnd_def split: option.splits sum.splits bool.splits if_splits)

lemma match_previous:
  "Parser_match p types = Inr (True, p1) \<Longrightarrow>
   \<exists>t. previous p1 = Some t \<and> type t \<in> Member ` set types"
proof (induction types)
  case Nil
  then show ?case by simp
next
  case (Cons ty types)
  show ?case
  proof (cases "check p ty")
    case (Inl e)
    with Cons.prems show ?thesis by simp
  next
    case (Inr b)
    show ?thesis
    proof (cases b)
      case True
      from Inr True have "check p ty = Inr True" by simp
      then obtain t where t: "Parser_peek p = Some t" "type t = Member ty"
        "Parser_isAtEnd p = Inr False"
        using check_True by blast
      with Cons.prems Inr True have "p1 = p\<lparr>Parser.current := Parser.current p + 1\<rparr>"
        by (simp add: Parser_advance_def)
      with t show ?thesis
        by (auto simp: previous_def Parser_peek_def split: if_splits)
    next
      case False
      with Cons Inr show ?thesis by auto
    qed
  qed
qed

lemma ok_loop_step:
  assumes left: "handled expr"
    and sub: "\<And>p. ok_result (operand p)"
    and loop: "\<And>e p. handled e \<Longrightarrow> ok_result (continue e p)"
    and types: "set types \<subseteq> {BANG_EQUAL, EQUAL_EQUAL, GREATER, GREATER_EQUAL, LESS, LESS_EQUAL,
        MINUS, PLUS, SLASH, STAR}"
  shows "ok_result
    (and_then (returning (Parser_match p types)) (\<lambda>(matched, p1).
       if matched then
         and_then (defined (previous p1) ''type'') (\<lambda>operator.
         and_then (operand p1) (\<lambda>(right, p2).
           continue (Binary expr operator right) p2))
       else Some (Inr (expr, p1))))"
proof (rule ok_and_then)
  fix x assume x: "returning (Parser_match p types) = Some (Inr x)"
  obtain matched p1 where xp: "x = (matched, p1)" by (cases x)
  show "ok_result (case x of (matched, p1) \<Rightarrow>
       if matched then
         and_then (defined (previous p1) ''type'') (\<lambda>operator.
         and_then (operand p1) (\<lambda>(right, p2).
           continue (Binary expr operator right) p2))
       else Some (Inr (expr, p1)))"
  proof (cases matched)
    case False
    with xp left show ?thesis by simp
  next
    case True
    with x xp have m: "Parser_match p types = Inr (True, p1)"
      by (simp add: returning_def)
    have "ok_result (and_then (defined (previous p1) ''type'') (\<lambda>operator.
         and_then (operand p1) (\<lambda>(right, p2). continue (Binary expr operator right) p2)))"
    proof (rule ok_and_then)
      fix operator assume "defined (previous p1) ''type'' = Some (Inr operator)"
      then have "previous p1 = Some operator"
        by (simp add: defined_def split: option.splits)
      with match_previous [OF m] types have ty: "type operator \<in> {Member BANG_EQUAL, Member EQUAL_EQUAL,
        Member GREATER, Member GREATER_EQUAL, Member LESS, Member LESS_EQUAL, Member MINUS,
        Member PLUS, Member SLASH, Member STAR}"
        by auto
      show "ok_result (and_then (operand p1) (\<lambda>(right, p2).
          continue (Binary expr operator right) p2))"
      proof (rule ok_and_then)
        fix y assume y: "operand p1 = Some (Inr y)"
        obtain right p2 where yp: "y = (right, p2)" by (cases y)
        from sub [of p1] y yp have "handled right" by simp
        with left ty have "handled (Binary expr operator right)" by simp
        then show "ok_result (case y of (right, p2) \<Rightarrow> continue (Binary expr operator right) p2)"
          using yp loop by simp
      qed
    qed
    with xp True show ?thesis by simp
  qed
qed

lemma ok_head_step:
  assumes sub: "\<And>p. ok_result (operand p)"
    and loop: "\<And>e p. handled e \<Longrightarrow> ok_result (continue e p)"
  shows "ok_result (and_then (operand p) (\<lambda>(expr, p1). continue expr p1))"
proof (rule ok_and_then)
  fix x assume x: "operand p = Some (Inr x)"
  obtain expr p1 where xp: "x = (expr, p1)" by (cases x)
  from sub [of p] x xp have "handled expr" by simp
  then show "ok_result (case x of (expr, p1) \<Rightarrow> continue expr p1)"
    using xp loop by simp
qed

lemma ok_unary_step:
  assumes rec: "\<And>p. ok_result (operand p)"
    and prim: "\<And>p. ok_result (other p)"
  shows "ok_result
    (and_then (returning (Parser_match p [BANG, MINUS])) (\<lambda>(matched, p1).
       if matched then
         and_then (defined (previous p1) ''type'') (\<lambda>operator.
         and_then (operand p1) (\<lambda>(right, p2).
           Some (Inr (Unary operator right, p2))))
       else other p1))"
proof (rule ok_and_then)
  fix x assume x: "returning (Parser_match p [BANG, MINUS]) = Some (Inr x)"
  obtain matched p1 where xp: "x = (matched, p1)" by (cases x)
  show "ok_result (case x of (matched, p1) \<Rightarrow>
       if matched then
         and_then (defined (previous p1) ''type'') (\<lambda>operator.
         and_then (operand p1) (\<lambda>(right, p2).
           Some (Inr (Unary operator right, p2))))
       else other p1)"
  proof (cases matched)
    case False
    with xp prim show ?thesis by simp
  next
    case True
    with x xp have m: "Parser_match p [BANG, MINUS] = Inr (True, p1)"
      by (simp add: returning_def)
    have "ok_result (and_then (defined (previous p1) ''type'') (\<lambda>operator.
         and_then (operand p1) (\<lambda>(right, p2). Some (Inr (Unary operator right, p2)))))"
    proof (rule ok_and_then)
      fix operator assume "defined (previous p1) ''type'' = Some (Inr operator)"
      then have "previous p1 = Some operator"
        by (simp add: defined_def split: option.splits)
      with match_previous [OF m] have ty: "type operator \<in> {Member BANG, Member MINUS}"
        by auto
      show "ok_result (and_then (operand p1) (\<lambda>(right, p2).
          Some (Inr (Unary operator right, p2))))"
      proof (rule ok_and_then)
        fix y assume y: "operand p1 = Some (Inr y)"
        obtain right p2 where yp: "y = (right, p2)" by (cases y)
        from rec [of p1] y yp have "handled right" by simp
        with ty show "ok_result (case y of (right, p2) \<Rightarrow> Some (Inr (Unary operator right, p2)))"
          using yp by simp
      qed
    qed
    with xp True show ?thesis by simp
  qed
qed

lemma ok_match_step:
  assumes "\<And>p1. ok_result (yes p1)" and "\<And>p1. ok_result (no p1)"
  shows "ok_result (and_then (returning (Parser_match p types))
    (\<lambda>(matched, p1). if matched then yes p1 else no p1))"
  using assms by (intro ok_and_then) (auto split: prod.splits)

lemma ok_primary_step:
  assumes rec: "\<And>p. ok_result (inner p)"
  shows "ok_result
    (and_then (returning (Parser_match p [FALSE])) (\<lambda>(matched, p1).
       if matched then Some (Inr (Literal (JBoolean False), p1)) else
     and_then (returning (Parser_match p1 [TRUE])) (\<lambda>(matched, p2).
       if matched then Some (Inr (Literal (JBoolean True), p2)) else
     and_then (returning (Parser_match p2 [NIL])) (\<lambda>(matched, p3).
       if matched then Some (Inr (Literal JNull, p3)) else
     and_then (returning (Parser_match p3 [NUMBER, STRING])) (\<lambda>(matched, p4).
       if matched then
         and_then (defined (previous p4) ''literal'') (\<lambda>t.
           Some (Inr (Literal (literal t), p4)))
       else
     and_then (returning (Parser_match p4 [LEFT_PAREN])) (\<lambda>(matched, p5).
       if matched then
         and_then (inner p5) (\<lambda>(expr, p6).
         and_then (returning (consume p6 RIGHT_PAREN ''Expect ')' after expression'')) (\<lambda>p7.
           Some (Inr (Grouping expr, p7))))
       else
         and_then (defined (Parser_peek p5) ''type'') (\<lambda>t.
           Some (Inl (ParseError t ''Expect expression'')))))))))"
proof -
  have inner: "ok_result (and_then (inner p5) (\<lambda>(expr, p6).
         and_then (returning (consume p6 RIGHT_PAREN msg)) (\<lambda>p7.
           Some (Inr (Grouping expr, p7)))))" for p5 msg
  proof (rule ok_and_then)
    fix x assume x: "inner p5 = Some (Inr x)"
    obtain expr p6 where xp: "x = (expr, p6)" by (cases x)
    from rec [of p5] x xp have "handled expr" by simp
    then have "ok_result (and_then (returning (consume p6 RIGHT_PAREN msg)) (\<lambda>p7.
           Some (Inr (Grouping expr, p7))))"
      by (intro ok_and_then) simp
    with xp show "ok_result (case x of (expr, p6) \<Rightarrow>
         and_then (returning (consume p6 RIGHT_PAREN msg)) (\<lambda>p7.
           Some (Inr (Grouping expr, p7))))"
      by simp
  qed
  have lit: "ok_result (and_then (defined t name) (\<lambda>t. Some (Inr (Literal (literal t), p4))))"
    for t name and p4 :: "'n Parser"
    by (rule ok_and_then) simp
  have err: "ok_result (and_then (defined t name) (\<lambda>t. Some (Inl (ParseError t msg))))"
    for t name msg
    by (rule ok_and_then) simp
  show ?thesis
    by (intro ok_match_step inner lit err) simp_all
qed

lemma parser_ok:
  "(\<forall>p :: 'n Parser. ok_result (expression n p))
   \<and> (\<forall>p :: 'n Parser. ok_result (equality n p))
   \<and> (\<forall>e (p :: 'n Parser). handled e \<longrightarrow> ok_result (equality_loop n e p))
   \<and> (\<forall>p :: 'n Parser. ok_result (comparison n p))
   \<and> (\<forall>e (p :: 'n Parser). handled e \<longrightarrow> ok_result (comparison_loop n e p))
   \<and> (\<forall>p :: 'n Parser. ok_result (Parser_term n p))
   \<and> (\<forall>e (p :: 'n Parser). handled e \<longrightarrow> ok_result (term_loop n e p))
   \<and> (\<forall>p :: 'n Parser. ok_result (factor n p))
   \<and> (\<forall>e (p :: 'n Parser). handled e \<longrightarrow> ok_result (factor_loop n e p))
   \<and> (\<forall>p :: 'n Parser. ok_result (unary n p))
   \<and> (\<forall>p :: 'n Parser. ok_result (primary n p))"
proof (induction n)
  case 0
  show ?case by simp
next
  case (Suc n)
  have i1: "ok_result (expression n p)" for p :: "'n Parser" using Suc by blast
  have i2: "ok_result (equality n p)" for p :: "'n Parser" using Suc by blast
  have i3: "ok_result (equality_loop n e p)" if "handled e" for e and p :: "'n Parser"
    using Suc that by blast
  have i4: "ok_result (comparison n p)" for p :: "'n Parser" using Suc by blast
  have i5: "ok_result (comparison_loop n e p)" if "handled e" for e and p :: "'n Parser"
    using Suc that by blast
  have i6: "ok_result (Parser_term n p)" for p :: "'n Parser" using Suc by blast
  have i7: "ok_result (term_loop n e p)" if "handled e" for e and p :: "'n Parser"
    using Suc that by blast
  have i8: "ok_result (factor n p)" for p :: "'n Parser" using Suc by blast
  have i9: "ok_result (factor_loop n e p)" if "handled e" for e and p :: "'n Parser"
    using Suc that by blast
  have i10: "ok_result (unary n p)" for p :: "'n Parser" using Suc by blast
  have i11: "ok_result (primary n p)" for p :: "'n Parser" using Suc by blast
  have s1: "ok_result (expression (Suc n) p)" for p :: "'n Parser"
    using i2 by simp
  have s2: "ok_result (equality (Suc n) p)" for p :: "'n Parser"
    using ok_head_step [of "comparison n" "equality_loop n" p, OF i4 i3] by simp
  have s3: "ok_result (equality_loop (Suc n) e p)" if "handled e" for e and p :: "'n Parser"
    using ok_loop_step [of e "comparison n" "equality_loop n" "[BANG_EQUAL, EQUAL_EQUAL]" p,
        OF that i4 i3] by simp
  have s4: "ok_result (comparison (Suc n) p)" for p :: "'n Parser"
    using ok_head_step [of "Parser_term n" "comparison_loop n" p, OF i6 i5] by simp
  have s5: "ok_result (comparison_loop (Suc n) e p)" if "handled e" for e and p :: "'n Parser"
    using ok_loop_step [of e "Parser_term n" "comparison_loop n"
        "[GREATER, GREATER_EQUAL, LESS, LESS_EQUAL]" p, OF that i6 i5] by simp
  have s6: "ok_result (Parser_term (Suc n) p)" for p :: "'n Parser"
    using ok_head_step [of "factor n" "term_loop n" p, OF i8 i7] by simp
  have s7: "ok_result (term_loop (Suc n) e p)" if "handled e" for e and p :: "'n Parser"
    using ok_loop_step [of e "factor n" "term_loop n" "[MINUS, PLUS]" p, OF that i8 i7]
    by simp
  have s8: "ok_result (factor (Suc n) p)" for p :: "'n Parser"
    using ok_head_step [of "unary n" "factor_loop n" p, OF i10 i9] by simp
  have s9: "ok_result (factor_loop (Suc n) e p)" if "handled e" for e and p :: "'n Parser"
    using ok_loop_step [of e "unary n" "factor_loop n" "[SLASH, STAR]" p, OF that i10 i9]
    by simp
  have s10: "ok_result (unary (Suc n) p)" for p :: "'n Parser"
    using ok_unary_step [of "unary n" "primary n" p, OF i10 i11] by simp
  have s11: "ok_result (primary (Suc n) p)" for p :: "'n Parser"
    using ok_primary_step [of "expression n" p, OF i1] by simp
  show ?case
    using s1 s2 s3 s4 s5 s6 s7 s8 s9 s10 s11 by (intro conjI allI impI)
qed

lemma switch_handled:
  "type t \<in> {Member BANG, Member MINUS} \<Longrightarrow> visitUnaryExpr_switch h t v \<noteq> None"
  "type t \<in> {Member BANG_EQUAL, Member EQUAL_EQUAL,
        Member GREATER, Member GREATER_EQUAL, Member LESS, Member LESS_EQUAL, Member MINUS,
        Member PLUS, Member SLASH, Member STAR} \<Longrightarrow> visitBinaryExpr_switch h t l r \<noteq> None"
  by (auto simp: visitUnaryExpr_switch_def visitBinaryExpr_switch_def)

text \<open>
  C10: in every tree that \<open>parse\<close> returns, the operator of each \<open>Unary\<close> node is
  \<open>BANG\<close> or \<open>MINUS\<close> and the operator of each \<open>Binary\<close> node is one of
  \<open>BANG_EQUAL\<close>, \<open>EQUAL_EQUAL\<close>, \<open>GREATER\<close>, \<open>GREATER_EQUAL\<close>, \<open>LESS\<close>,
  \<open>LESS_EQUAL\<close>, \<open>MINUS\<close>, \<open>PLUS\<close>, \<open>SLASH\<close>, \<open>STAR\<close>; so for each of these nodes
  the \<open>switch\<close> of the interpreter finds a \<open>case\<close>, whatever the operand values, and
  control never leaves it without a \<open>return\<close>.
\<close>

theorem parsed_operators_are_handled:
  assumes "parse n p g = Some (Some e, g')"
  shows "(\<forall>t \<in> set (unary_operators e).
            type t \<in> {Member BANG, Member MINUS}
            \<and> (\<forall>h v. visitUnaryExpr_switch h t v \<noteq> None))
       \<and> (\<forall>t \<in> set (binary_operators e).
            type t \<in> {Member BANG_EQUAL, Member EQUAL_EQUAL, Member GREATER,
              Member GREATER_EQUAL, Member LESS, Member LESS_EQUAL, Member MINUS, Member PLUS,
              Member SLASH, Member STAR}
            \<and> (\<forall>h l r. visitBinaryExpr_switch h t l r \<noteq> None))"
proof -
  from assms obtain p' where "expression n p = Some (Inr (e, p'))"
    by (auto simp: parse_def split: option.splits sum.splits thrown.splits)
  with parser_ok [of n] have "handled e"
    by (auto simp: ok_result_def)
  then have u: "\<forall>t \<in> set (unary_operators e). type t \<in> {Member BANG, Member MINUS}"
    and b: "\<forall>t \<in> set (binary_operators e). type t \<in> {Member BANG_EQUAL, Member EQUAL_EQUAL,
        Member GREATER, Member GREATER_EQUAL, Member LESS, Member LESS_EQUAL, Member MINUS,
        Member PLUS, Member SLASH, Member STAR}"
    by (simp_all add: handled_def)
  show ?thesis
  proof (intro conjI ballI allI)
    fix t assume "t \<in> set (unary_operators e)"
    with u show "type t \<in> {Member BANG, Member MINUS}" by (rule bspec)
    with switch_handled(1) show "visitUnaryExpr_switch h t v \<noteq> None" for h v .
  next
    fix t assume "t \<in> set (binary_operators e)"
    with b show "type t \<in> {Member BANG_EQUAL, Member EQUAL_EQUAL,
        Member GREATER, Member GREATER_EQUAL, Member LESS, Member LESS_EQUAL, Member MINUS,
        Member PLUS, Member SLASH, Member STAR}" by (rule bspec)
    with switch_handled(2) show "visitBinaryExpr_switch h t l r \<noteq> None" for h l r .
  qed
qed

text \<open>
  The tokens of \<open>-1 + 2\<close> parse to \<open>Binary(Unary(-, 1), +, 2)\<close>, and the two
  operators have a \<open>case\<close>.
\<close>

theorem parsed_operators_witness:
  "parse 20 (new_Parser (fst (scanTokens exact_host (new_Scanner ''-1 + 2'') initial_globals)))
      initial_globals =
     Some (Some (Binary
        (Unary (Token (Member MINUS) ''-'' JNull 1) (Literal (JNumber (Fin 1))))
        (Token (Member PLUS) ''+'' JNull 1)
        (Literal (JNumber (Fin 2)))), initial_globals)
   \<and> visitUnaryExpr_switch exact_host (Token (Member MINUS) ''-'' JNull 1) (JNumber (Fin 1))
       \<noteq> None
   \<and> visitBinaryExpr_switch exact_host (Token (Member PLUS) ''+'' JNull 1)
         (JNumber (Fin (- 1))) (JNumber (Fin 2)) \<noteq> None"
proof -
  have p: "parse 20
      (new_Parser (fst (scanTokens exact_host (new_Scanner ''-1 + 2'') initial_globals)))
      initial_globals =
     Some (Some (Binary
        (Unary (Token (Member MINUS) ''-'' JNull 1) (Literal (JNumber (Fin 1))))
        (Token (Member PLUS) ''+'' JNull 1)
        (Literal (JNumber (Fin 2)))), initial_globals)"
    by code_simp
  from parsed_operators_are_handled [OF p] show ?thesis
    using p by simp
qed

section \<open>Properties of the driver\<close>

text \<open>
  When \<open>parse\<close> returns \<open>null\<close>, \<open>interpret\<close> throws, \<open>runFile\<close> never reaches its
  test of \<open>hadError\<close>, and \<open>main\<close> exits with \<open>-1\<close>; nothing is printed to \<open>stdout\<close>.
\<close>

lemma null_expression_exits_minus_one:
  assumes "scanTokens h (new_Scanner content) g = (toks, g1)"
    and "parse n (new_Parser toks) g1 = Some (None, g2)"
  shows "main_file h n content g =
     Some (Exits (- 1),
       g2\<lparr>stderr := stderr g2 @
         [Uncaught ''Cannot read properties of null (reading 'accept')'']\<rparr>)"
  using assms by (simp add: main_file_def runFile_def run_def Interpreter_interpret_def)

text \<open>
  C5 (the code departs from it): an input on which the parser reports a syntax
  diagnostic should print no value and, run as a file, end with exit code \<open>65\<close>. On
  the file \<open>(1 +\<close> the parser reports \<open>Expect expression\<close> at the end and nothing is
  printed to \<open>stdout\<close>, but \<open>run\<close> passes the \<open>null\<close> of \<open>parse\<close> to \<open>interpret\<close>,
  which throws, and the program exits with \<open>-1\<close>.
\<close>

theorem syntax_error_exit_code:
  "main_file exact_host 20 ''(1 +'' initial_globals =
     Some (Exits (- 1),
       \<lparr>hadError = True,
        stderr = [Report 1 '' at end'' ''Expect expression'',
                  Uncaught ''Cannot read properties of null (reading 'accept')''],
        stdout = []\<rparr>)"
  by code_simp

section \<open>The keyword table\<close>

text \<open>
  C8 (the code departs from it): an identifier-shaped lexeme that is none of the
  sixteen keywords should be scanned as \<open>IDENTIFIER\<close>. For the lexeme
  \<open>constructor\<close> the read \<open>Scanner.KEYWORDS[text]\<close> finds the property that
  \<open>KEYWORDS\<close> inherits from \<open>Object.prototype\<close>, which is truthy, and the token's
  type is that inherited member.
\<close>

theorem inherited_property_is_no_identifier:
  "fst (scanTokens exact_host (new_Scanner ''constructor'') initial_globals) =
     [Token (Inherited ''constructor'') ''constructor'' JNull 1,
      Token (Member EOF) [] JNull 1]"
  by code_simp

text \<open>
  For every other lexeme the lookup is as the table says: a keyword's kind, or
  nothing, which \<open>identifier\<close> turns into \<open>IDENTIFIER\<close>.
\<close>

lemma KEYWORDS_get_own:
  "text \<notin> set Object_prototype \<Longrightarrow>
   KEYWORDS_get text = map_option Member (map_of KEYWORDS text)"
  by (simp add: KEYWORDS_get_def split: option.splits)

end
